theory Spec2Isabelle
  imports Main "HOL-Library.Char_ord" "HOL-Library.List_Lexorder"
begin

section \<open>Link extraction from XML documents (test1.py)\<close>

text \<open>
  The development models \<^verbatim>\<open>extract_links_from_xml\<close> and its nested function
  \<^verbatim>\<open>find_links\<close>. What the source takes from libraries and from the interpreter is a
  parameter of the model:
  \<^item> \<^verbatim>\<open>urljoin\<close> (urllib.parse) takes the base URL and a reference and gives a URL or
    the exception it raises (\<^verbatim>\<open>ValueError\<close> for a reference such as \<^verbatim>\<open>//[\<close>);
  \<^item> \<^verbatim>\<open>fetch\<close> stands for lines 34 to 42: \<^verbatim>\<open>requests.get\<close>, \<^verbatim>\<open>raise_for_status\<close>
    and \<^verbatim>\<open>response.text\<close> when \<^verbatim>\<open>is_url\<close> holds, \<^verbatim>\<open>open\<close> and \<^verbatim>\<open>read\<close> otherwise; it
    gives the content or the exception raised;
  \<^item> \<^verbatim>\<open>parse\<close> stands for \<^verbatim>\<open>ET.fromstring\<close>; it gives the root element or the exception
    raised;
  \<^item> \<^verbatim>\<open>limit\<close> is the number of nested calls of \<^verbatim>\<open>find_links\<close> that the interpreter
    allows when the traversal starts (the recursion limit less the frames in use): the
    call that would exceed it raises \<^verbatim>\<open>RecursionError\<close>.
  Everything between lines 33 and 78 is inside the \<^verbatim>\<open>try\<close>, so an exception raised while
  fetching, parsing or traversing reaches the handlers of lines 80 to 91.
  The \<^verbatim>\<open>print\<close> calls and the \<^verbatim>\<open>depth\<close> argument, which only indents what is printed, are
  left out. Strings are lists of 8-bit characters ordered by character code, which is
  the order of Python's \<^verbatim>\<open>str\<close> on the code points below 256.
\<close>

subsection \<open>Data\<close>

text \<open>An \<^verbatim>\<open>xml.etree.ElementTree.Element\<close>: tag, attribute dictionary, text (possibly
  \<^verbatim>\<open>None\<close>; the field \<^verbatim>\<open>text\<close> is \<open>text_of\<close> here) and the child elements in document
  order.\<close>

datatype element =
  Element (tag: string) (attrib: "string \<rightharpoonup> string") (text_of: "string option")
    (children: "element list")

text \<open>The exception classes that the handlers of lines 80 to 91 tell apart, and the two
  that the traversal raises. A value stands for the class and its subclasses;
  \<open>OtherException\<close> is any other class derived from \<^verbatim>\<open>Exception\<close> (\<^verbatim>\<open>OSError\<close>,
  \<^verbatim>\<open>UnicodeDecodeError\<close>, \<^verbatim>\<open>TypeError\<close>, ...), while \<open>KeyboardInterrupt\<close> and \<open>SystemExit\<close>
  derive from \<^verbatim>\<open>BaseException\<close> only.\<close>

datatype exn =
  RequestException | ParseError | FileNotFoundError | ValueError | RecursionError
  | OtherException | KeyboardInterrupt | SystemExit

fun is_Exception :: "exn \<Rightarrow> bool" where
  "is_Exception KeyboardInterrupt = False"
| "is_Exception SystemExit = False"
| "is_Exception _ = True"

definition default_tags :: "string list" where
  "default_tags = [''loc'', ''a'', ''link'', ''url'']"

definition default_attrs :: "string list" where
  "default_attrs = [''href'', ''src'', ''url'']"

definition sitemap_ns :: string where
  "sitemap_ns = ''http://www.sitemaps.org/schemas/sitemap/0.9''"

text \<open>\<^verbatim>\<open>custom or []\<close> for an optional list argument whose default is \<^verbatim>\<open>None\<close>.\<close>

definition or_empty :: "'a list option \<Rightarrow> 'a list" where
  "or_empty xs = (case xs of None \<Rightarrow> [] | Some ys \<Rightarrow> ys)"

subsection \<open>String operations\<close>

text \<open>\<^verbatim>\<open>s.split(sep)\<close> for a separator of one character: the pieces between the
  separators. There is always at least one piece, so the first case of the inner
  \<open>case\<close> never arises.\<close>

fun split_on :: "char \<Rightarrow> string \<Rightarrow> string list" where
  "split_on sep [] = [[]]"
| "split_on sep (c # cs) =
     (if c = sep then [] # split_on sep cs
      else (case split_on sep cs of
              [] \<Rightarrow> [[c]]
            | piece # pieces \<Rightarrow> (c # piece) # pieces))"

text \<open>\<^verbatim>\<open>str.isspace\<close> on one character, for the code points below 256.\<close>

definition isspace :: "char \<Rightarrow> bool" where
  "isspace c =
     (let n = (of_char c :: nat)
      in (9 \<le> n \<and> n \<le> 13) \<or> (28 \<le> n \<and> n \<le> 32) \<or> n = 133 \<or> n = 160)"

text \<open>\<^verbatim>\<open>s.strip()\<close>: whitespace removed at both ends.\<close>

definition strip :: "string \<Rightarrow> string" where
  "strip s = rev (dropWhile isspace (rev (dropWhile isspace s)))"

text \<open>\<^verbatim>\<open>element.tag.split('}')[-1]\<close>, the tag without its namespace.\<close>

definition tag_name :: "element \<Rightarrow> string" where
  "tag_name element = last (split_on (CHR ''}'') (tag element))"

subsection \<open>The traversal\<close>

text \<open>Lines 55 to 62: the loop over \<^verbatim>\<open>link_attributes\<close>, with the set \<^verbatim>\<open>links\<close> passed
  through. The loop ends at the first call of \<^verbatim>\<open>urljoin\<close> that raises.\<close>

fun check_attributes ::
  "(string \<Rightarrow> string \<Rightarrow> exn + string) \<Rightarrow> string \<Rightarrow> bool \<Rightarrow> element \<Rightarrow> string list
    \<Rightarrow> string set \<Rightarrow> exn + string set" where
  "check_attributes urljoin xml_source is_url element [] links = Inr links"
| "check_attributes urljoin xml_source is_url element (attr # rest) links =
     (case attrib element attr of
        None \<Rightarrow> check_attributes urljoin xml_source is_url element rest links
      | Some link \<Rightarrow>
          if link \<noteq> []
          then if is_url
            then (case urljoin xml_source link of
                    Inl e \<Rightarrow> Inl e
                  | Inr joined \<Rightarrow>
                      check_attributes urljoin xml_source is_url element rest
                        (insert joined links))
            else check_attributes urljoin xml_source is_url element rest (insert link links)
          else check_attributes urljoin xml_source is_url element rest links)"

text \<open>Lines 65 to 69: the loop over \<^verbatim>\<open>link_tags\<close>. Nothing in it raises.\<close>

fun check_tags :: "element \<Rightarrow> string list \<Rightarrow> string set \<Rightarrow> string set" where
  "check_tags element [] links = links"
| "check_tags element (t # rest) links =
     check_tags element rest
       (if tag_name element = t \<or> tag element = ''{'' @ sitemap_ns @ ''}'' @ t
        then (case text_of element of
                None \<Rightarrow> links
              | Some txt \<Rightarrow>
                  if txt \<noteq> [] \<and> strip txt \<noteq> [] then insert (strip txt) links
                  else links)
        else links)"

text \<open>A \<^verbatim>\<open>for\<close> loop whose body may raise: the loop ends at the first exception.\<close>

fun for_each :: "('a \<Rightarrow> 's \<Rightarrow> exn + 's) \<Rightarrow> 'a list \<Rightarrow> 's \<Rightarrow> exn + 's" where
  "for_each body [] s = Inr s"
| "for_each body (x # xs) s =
     (case body x s of Inl e \<Rightarrow> Inl e | Inr s' \<Rightarrow> for_each body xs s')"

text \<open>Lines 49 to 73: attributes, then tags, then every child in order. The argument
  \<open>frames\<close> counts the nested calls that are still allowed; a call with none left is the
  one at which the interpreter raises \<^verbatim>\<open>RecursionError\<close>.\<close>

fun find_links ::
  "(string \<Rightarrow> string \<Rightarrow> exn + string) \<Rightarrow> string \<Rightarrow> bool \<Rightarrow> string list \<Rightarrow> string list
    \<Rightarrow> nat \<Rightarrow> element \<Rightarrow> string set \<Rightarrow> exn + string set" where
  "find_links urljoin xml_source is_url link_attributes link_tags 0 element links =
     Inl RecursionError"
| "find_links urljoin xml_source is_url link_attributes link_tags (Suc frames) element links =
     (case check_attributes urljoin xml_source is_url element link_attributes links of
        Inl e \<Rightarrow> Inl e
      | Inr links1 \<Rightarrow>
          for_each (find_links urljoin xml_source is_url link_attributes link_tags frames)
            (children element) (check_tags element link_tags links1))"

subsection \<open>The extraction function\<close>

text \<open>Lines 32 to 78, the body of the \<^verbatim>\<open>try\<close>: the exception raised, or the sorted
  list of the links.\<close>

definition try_body ::
  "(string \<Rightarrow> string \<Rightarrow> exn + string) \<Rightarrow> (string \<Rightarrow> bool \<Rightarrow> exn + string)
    \<Rightarrow> (string \<Rightarrow> exn + element) \<Rightarrow> nat \<Rightarrow> string \<Rightarrow> bool \<Rightarrow> string list
    \<Rightarrow> string list \<Rightarrow> exn + string list" where
  "try_body urljoin fetch parse limit xml_source is_url link_tags link_attributes =
     (case fetch xml_source is_url of
        Inl e \<Rightarrow> Inl e
      | Inr xml_content \<Rightarrow>
          (case parse xml_content of
             Inl e \<Rightarrow> Inl e
           | Inr root \<Rightarrow>
               (case find_links urljoin xml_source is_url link_attributes link_tags limit
                       root {} of
                  Inl e \<Rightarrow> Inl e
                | Inr links \<Rightarrow> Inr (sorted_list_of_set links))))"

text \<open>Lines 80 to 91: the handlers in their order. An exception that no handler
  matches leaves the function.\<close>

definition handlers :: "exn \<Rightarrow> exn + string list" where
  "handlers e =
     (if e = RequestException then Inr []
      else if e = ParseError then Inr []
      else if e = FileNotFoundError then Inr []
      else if is_Exception e then Inr []
      else Inl e)"

definition extract_links_from_xml ::
  "(string \<Rightarrow> string \<Rightarrow> exn + string) \<Rightarrow> (string \<Rightarrow> bool \<Rightarrow> exn + string)
    \<Rightarrow> (string \<Rightarrow> exn + element) \<Rightarrow> nat \<Rightarrow> string \<Rightarrow> bool \<Rightarrow> string list option
    \<Rightarrow> string list option \<Rightarrow> exn + string list" where
  "extract_links_from_xml urljoin fetch parse limit xml_source is_url custom_tags
     custom_attrs =
     (let link_tags = default_tags @ or_empty custom_tags;
          link_attributes = default_attrs @ or_empty custom_attrs
      in case try_body urljoin fetch parse limit xml_source is_url link_tags
                link_attributes of
           Inl e \<Rightarrow> handlers e
         | Inr result \<Rightarrow> Inr result)"

subsection \<open>What a document offers: the candidate links\<close>

text \<open>The elements of a document in document order, the root first, and the number of
  levels of a document.\<close>

fun elements :: "element \<Rightarrow> element list" where
  "elements (Element t a x cs) = Element t a x cs # concat (map elements cs)"

fun nesting :: "element \<Rightarrow> nat" where
  "nesting (Element t a x cs) = Suc (foldr max (map nesting cs) 0)"

text \<open>The candidate links of one element found in attributes: the non-empty values
  of its recognized attributes, as they stand in the document.\<close>

definition attribute_candidates :: "string list \<Rightarrow> element \<Rightarrow> string set" where
  "attribute_candidates link_attributes e =
     (\<Union>a \<in> set link_attributes.
        case attrib e a of None \<Rightarrow> {} | Some v \<Rightarrow> if v \<noteq> [] then {v} else {})"

text \<open>An element matches the recognized tags when its local name is one of them, or
  its full tag is the sitemap namespace in braces followed by one of them.\<close>

definition tag_matches :: "string list \<Rightarrow> element \<Rightarrow> bool" where
  "tag_matches link_tags e =
     (tag_name e \<in> set link_tags
      \<or> tag e \<in> set (map (\<lambda>t. ''{'' @ sitemap_ns @ ''}'' @ t) link_tags))"

text \<open>The candidate link of one element found as text: the trimmed text of an element
  that matches, when there is a text and its trimmed form is not empty.\<close>

definition text_candidates :: "string list \<Rightarrow> element \<Rightarrow> string set" where
  "text_candidates link_tags e =
     (if tag_matches link_tags e
      then (case text_of e of
              None \<Rightarrow> {}
            | Some txt \<Rightarrow> if strip txt = [] then {} else {strip txt})
      else {})"

text \<open>Lines 60 and 61 for one candidate: the link that goes into the set, none when
  \<^verbatim>\<open>urljoin\<close> raises.\<close>

definition resolved ::
  "(string \<Rightarrow> string \<Rightarrow> exn + string) \<Rightarrow> string \<Rightarrow> bool \<Rightarrow> string \<Rightarrow> string set" where
  "resolved urljoin xml_source is_url link =
     (if is_url
      then (case urljoin xml_source link of Inl e \<Rightarrow> {} | Inr joined \<Rightarrow> {joined})
      else {link})"

text \<open>All links of a document: attribute candidates resolved, text candidates as
  they are.\<close>

definition document_links ::
  "(string \<Rightarrow> string \<Rightarrow> exn + string) \<Rightarrow> string \<Rightarrow> bool \<Rightarrow> string list \<Rightarrow> string list
    \<Rightarrow> element \<Rightarrow> string set" where
  "document_links urljoin xml_source is_url link_attributes link_tags root =
     (\<Union>d \<in> set (elements root).
        (\<Union>v \<in> attribute_candidates link_attributes d. resolved urljoin xml_source is_url v)
        \<union> text_candidates link_tags d)"

text \<open>No call of \<^verbatim>\<open>urljoin\<close> that the traversal of the document makes raises.\<close>

definition resolution_succeeds ::
  "(string \<Rightarrow> string \<Rightarrow> exn + string) \<Rightarrow> string \<Rightarrow> bool \<Rightarrow> string list \<Rightarrow> element \<Rightarrow> bool"
  where
  "resolution_succeeds urljoin xml_source is_url link_attributes root =
     (is_url \<longrightarrow>
        (\<forall>d \<in> set (elements root). \<forall>v \<in> attribute_candidates link_attributes d.
           \<exists>joined. urljoin xml_source v = Inr joined))"

subsection \<open>Example documents and environments\<close>

text \<open>The documents of the examples, as \<^verbatim>\<open>ET.fromstring\<close> builds them: the namespace
  of a tag in braces before the local name, no \<^verbatim>\<open>xmlns\<close> attribute, \<^verbatim>\<open>None\<close> as the
  text of an element without text.\<close>

definition a_href_page :: element where
  "a_href_page = Element ''a'' [''href'' \<mapsto> ''/page''] None []"

definition link_feed_item :: element where
  "link_feed_item = Element ''link'' Map.empty (Some ''https://example.com/feed-item'') []"

definition sitemap_urlset :: element where
  "sitemap_urlset =
     Element ''{http://www.sitemaps.org/schemas/sitemap/0.9}urlset'' Map.empty None
       [Element ''{http://www.sitemaps.org/schemas/sitemap/0.9}url'' Map.empty None
          [Element ''{http://www.sitemaps.org/schemas/sitemap/0.9}loc'' Map.empty
             (Some ''https://example.com/a'') []]]"

definition atom_link :: element where
  "atom_link =
     Element ''{http://www.w3.org/2005/Atom}link'' Map.empty
       (Some ''https://example.com/feed-item'') []"

definition data_link_x :: element where
  "data_link_x = Element ''data-link'' Map.empty (Some ''https://x'') []"

definition item_data_href :: element where
  "item_data_href = Element ''item'' [''data-href'' \<mapsto> ''https://z''] None []"

definition loc_x :: element where
  "loc_x = Element ''loc'' Map.empty (Some ''https://x'') []"

definition url_href_text :: element where
  "url_href_text = Element ''url'' [''href'' \<mapsto> ''/x''] (Some ''https://y'') []"

definition a_href_space :: element where
  "a_href_space = Element ''a'' [''href'' \<mapsto> '' ''] None []"

definition loc_padded :: element where
  "loc_padded = Element ''loc'' Map.empty (Some ''  https://example.com/a  '') []"

definition urlset_empty :: element where
  "urlset_empty = Element ''urlset'' Map.empty None []"

definition notes_document :: element where
  "notes_document =
     Element ''notes'' [''id'' \<mapsto> ''n1''] (Some ''plain'')
       [Element ''loc'' Map.empty (Some ''   '') [],
        Element ''note'' Map.empty (Some ''https://example.com/n'') []]"

text \<open>Documents with the reference \<^verbatim>\<open>//[\<close>, for which \<^verbatim>\<open>urljoin\<close> raises
  \<^verbatim>\<open>ValueError\<close> (an unclosed bracket in the host part).\<close>

definition malformed_href_document :: element where
  "malformed_href_document =
     Element ''root'' Map.empty None
       [Element ''a'' [''href'' \<mapsto> ''//[''] None [],
        Element ''loc'' Map.empty (Some ''https://example.com/a'') []]"

definition space_beside_malformed :: element where
  "space_beside_malformed =
     Element ''root'' Map.empty None
       [Element ''a'' [''href'' \<mapsto> '' ''] None [],
        Element ''img'' [''src'' \<mapsto> ''//[''] None []]"

definition url_malformed_href_text :: element where
  "url_malformed_href_text = Element ''url'' [''href'' \<mapsto> ''//[''] (Some ''https://y'') []"

text \<open>A document wrapped in \<open>n\<close> further levels of elements.\<close>

fun deep :: "nat \<Rightarrow> element \<Rightarrow> element" where
  "deep 0 e = e"
| "deep (Suc n) e = Element ''item'' Map.empty None [deep n e]"

text \<open>Environments for the parameters: a fetch that gives a content or raises, a
  parser that gives a root or raises, a \<^verbatim>\<open>urljoin\<close> that raises.\<close>

definition fetch_gives :: "string \<Rightarrow> string \<Rightarrow> bool \<Rightarrow> exn + string" where
  "fetch_gives content xml_source is_url = Inr content"

definition fetch_raises :: "exn \<Rightarrow> string \<Rightarrow> bool \<Rightarrow> exn + string" where
  "fetch_raises e xml_source is_url = Inl e"

definition parse_gives :: "element \<Rightarrow> string \<Rightarrow> exn + element" where
  "parse_gives root xml_content = Inr root"

definition parse_raises :: "exn \<Rightarrow> string \<Rightarrow> exn + element" where
  "parse_raises e xml_content = Inl e"

definition urljoin_raises :: "exn \<Rightarrow> string \<Rightarrow> string \<Rightarrow> exn + string" where
  "urljoin_raises e base reference = Inl e"

text \<open>The part of a URL before its third slash: scheme and host.\<close>

fun before_slash :: "nat \<Rightarrow> string \<Rightarrow> string" where
  "before_slash n [] = []"
| "before_slash n (c # cs) =
     (if c = CHR ''/''
      then (case n of 0 \<Rightarrow> [] | Suc m \<Rightarrow> c # before_slash m cs)
      else c # before_slash n cs)"

text \<open>The values of \<^verbatim>\<open>urllib.parse.urljoin\<close> on the references of the examples: it raises
  \<^verbatim>\<open>ValueError\<close> for \<^verbatim>\<open>//[\<close>, gives the base for a single space (the space is stripped
  and an empty reference is left), puts a reference that starts with one slash after
  the scheme and host of the base, and gives back a reference that is an absolute URL.
  It is a table for these examples and not a model of \<^verbatim>\<open>urljoin\<close>, which stays a
  parameter of every theorem.\<close>

definition urljoin_sample :: "string \<Rightarrow> string \<Rightarrow> exn + string" where
  "urljoin_sample base reference =
     (if reference = ''//['' then Inl ValueError
      else if reference = '' '' then Inr base
      else if take 1 reference = ''/'' \<and> take 2 reference \<noteq> ''//''
      then Inr (before_slash 2 base @ reference)
      else Inr reference)"

section \<open>Basic facts\<close>

lemma split_on_not_Nil: "split_on sep s \<noteq> []"
  by (induction s) (auto split: list.split)

lemma split_on_no_separator: "sep \<notin> set ys \<Longrightarrow> split_on sep ys = [ys]"
  by (induction ys) auto

lemma split_on_last:
  "sep \<notin> set ys \<Longrightarrow> last (split_on sep (xs @ sep # ys)) = ys"
proof (induction xs)
  case Nil
  then show ?case by (simp add: split_on_no_separator)
next
  case (Cons x xs)
  obtain piece pieces where ps: "split_on sep (xs @ sep # ys) = piece # pieces"
    using split_on_not_Nil [of sep "xs @ sep # ys"]
    by (cases "split_on sep (xs @ sep # ys)") auto
  have "pieces \<noteq> []"
  proof
    assume single: "pieces = []"
    with ps Cons have "piece = ys" by simp
    moreover have "length (concat (split_on sep zs)) + length (split_on sep zs)
        = Suc (length zs)" for zs
      by (induction zs) (auto split: list.split)
    from this [of "xs @ sep # ys"] ps single
    have "length piece = length xs + Suc (length ys)"
      by simp
    ultimately show False by simp
  qed
  with Cons ps show ?case by simp
qed

lemma tag_name_strips_namespace:
  "CHR ''}'' \<notin> set name \<Longrightarrow> tag e = ns @ ''}'' @ name \<Longrightarrow> tag_name e = name"
  using split_on_last [of "CHR ''}''" name ns] by (simp add: tag_name_def)

lemma tag_name_without_namespace:
  "CHR ''}'' \<notin> set name \<Longrightarrow> tag e = name \<Longrightarrow> tag_name e = name"
  by (simp add: tag_name_def split_on_no_separator)

lemma strip_Nil: "strip [] = []"
  by (simp add: strip_def)

lemma strip_all_space: "list_all isspace s \<Longrightarrow> strip s = []"
proof -
  assume "list_all isspace s"
  then have d: "dropWhile isspace s = []"
    by (simp add: list_all_iff)
  show ?thesis unfolding strip_def d by simp
qed

lemma strip_core:
  assumes "list_all isspace ws1" and "list_all isspace ws2"
    and "core \<noteq> []" and "\<not> isspace (hd core)" and "\<not> isspace (last core)"
  shows "strip (ws1 @ core @ ws2) = core"
proof -
  have l: "dropWhile isspace (ws1 @ core @ ws2) = core @ ws2"
    using assms(1,3,4) by (cases core) (simp_all add: list_all_iff dropWhile_append)
  have "dropWhile isspace (rev ws2 @ rev core) = rev core"
    using assms(2,3,5)
    by (cases core rule: rev_cases) (simp_all add: list_all_iff dropWhile_append)
  then show ?thesis by (simp add: strip_def l)
qed

lemma elements_self: "e \<in> set (elements e)"
  by (cases e) simp

lemma elements_child:
  "c \<in> set cs \<Longrightarrow> d \<in> set (elements c) \<Longrightarrow> d \<in> set (elements (Element t a x cs))"
  by auto

lemma foldr_max_upper: "n \<in> set ns \<Longrightarrow> n \<le> foldr max ns (0 :: nat)"
  by (induction ns) auto

lemma foldr_max_least: "(\<And>n. n \<in> set ns \<Longrightarrow> n \<le> m) \<Longrightarrow> foldr max ns (0 :: nat) \<le> m"
  by (induction ns) auto

lemma nesting_child: "c \<in> set cs \<Longrightarrow> nesting c \<le> foldr max (map nesting cs) 0"
  by (rule foldr_max_upper) simp

lemma nesting_positive: "0 < nesting e"
  by (cases e) simp

lemma nesting_deep: "nesting (deep n e) = n + nesting e"
  by (induction n) simp_all

lemma attribute_candidates_iff:
  "v \<in> attribute_candidates attrs e \<longleftrightarrow> v \<noteq> [] \<and> (\<exists>a \<in> set attrs. attrib e a = Some v)"
proof
  assume "v \<in> attribute_candidates attrs e"
  then obtain a where a: "a \<in> set attrs"
    and v: "v \<in> (case attrib e a of None \<Rightarrow> {} | Some w \<Rightarrow> if w \<noteq> [] then {w} else {})"
    unfolding attribute_candidates_def by blast
  from v have "v \<noteq> [] \<and> attrib e a = Some v"
    by (cases "attrib e a") (simp_all split: if_splits)
  with a show "v \<noteq> [] \<and> (\<exists>a \<in> set attrs. attrib e a = Some v)" by blast
next
  assume "v \<noteq> [] \<and> (\<exists>a \<in> set attrs. attrib e a = Some v)"
  then obtain a where a: "a \<in> set attrs" and s: "attrib e a = Some v" and n: "v \<noteq> []"
    by blast
  from s n have "v \<in> (case attrib e a of None \<Rightarrow> {} | Some w \<Rightarrow> if w \<noteq> [] then {w} else {})"
    by simp
  with a show "v \<in> attribute_candidates attrs e"
    unfolding attribute_candidates_def by blast
qed

lemma attribute_candidates_Nil: "attribute_candidates [] e = {}"
  by (simp add: attribute_candidates_def)

lemma attribute_candidates_Cons:
  "attribute_candidates (a # attrs) e =
     (case attrib e a of None \<Rightarrow> {} | Some v \<Rightarrow> if v \<noteq> [] then {v} else {})
     \<union> attribute_candidates attrs e"
  by (simp add: attribute_candidates_def)

lemma attribute_candidates_empty_attrib:
  "attrib e = Map.empty \<Longrightarrow> attribute_candidates attrs e = {}"
  by (simp add: attribute_candidates_def)

lemma text_candidates_no_text: "text_of e = None \<Longrightarrow> text_candidates tags e = {}"
  by (simp add: text_candidates_def)

lemma finite_attribute_candidates: "finite (attribute_candidates attrs e)"
  by (simp add: attribute_candidates_def split: option.split)

lemma finite_text_candidates: "finite (text_candidates tags e)"
  by (simp add: text_candidates_def split: option.split)

lemma finite_resolved: "finite (resolved uj src u v)"
  by (simp add: resolved_def split: sum.split)

lemma finite_document_links: "finite (document_links uj src u attrs tags root)"
  by (simp add: document_links_def finite_attribute_candidates finite_text_candidates
      finite_resolved)

lemma document_links_Element:
  "document_links uj src u attrs tags (Element t a x cs) =
     (\<Union>v \<in> attribute_candidates attrs (Element t a x cs). resolved uj src u v)
     \<union> text_candidates tags (Element t a x cs)
     \<union> (\<Union>c \<in> set cs. document_links uj src u attrs tags c)"
  by (auto simp: document_links_def)

lemma document_links_member:
  "l \<in> document_links uj src u attrs tags root \<longleftrightarrow>
     (\<exists>d \<in> set (elements root).
        (\<exists>v \<in> attribute_candidates attrs d. l \<in> resolved uj src u v)
        \<or> l \<in> text_candidates tags d)"
  by (auto simp: document_links_def)

subsection \<open>The loops add exactly the candidates, or raise\<close>

lemma check_attributes_Inr:
  "check_attributes uj src u e attrs links = Inr L \<Longrightarrow>
     L = links \<union> (\<Union>v \<in> attribute_candidates attrs e. resolved uj src u v)
     \<and> (u \<longrightarrow> (\<forall>v \<in> attribute_candidates attrs e. \<exists>joined. uj src v = Inr joined))"
proof (induction attrs arbitrary: links)
  case Nil
  then show ?case by (simp add: attribute_candidates_Nil)
next
  case (Cons a attrs)
  show ?case
  proof (cases "attrib e a")
    case None
    with Cons.prems have "check_attributes uj src u e attrs links = Inr L" by simp
    from Cons.IH [OF this] None show ?thesis
      by (simp add: attribute_candidates_Cons)
  next
    case (Some v)
    show ?thesis
    proof (cases "v = []")
      case True
      with Cons.prems Some have "check_attributes uj src u e attrs links = Inr L" by simp
      from Cons.IH [OF this] Some True show ?thesis
        by (simp add: attribute_candidates_Cons)
    next
      case False
      note nonempty = this
      show ?thesis
      proof (cases u)
        case False
        with Cons.prems Some nonempty
        have "check_attributes uj src u e attrs (insert v links) = Inr L" by simp
        from Cons.IH [OF this] Some nonempty False show ?thesis
          by (auto simp: attribute_candidates_Cons resolved_def)
      next
        case True
        with Cons.prems Some nonempty obtain joined where j: "uj src v = Inr joined"
          and rest: "check_attributes uj src u e attrs (insert joined links) = Inr L"
          by (cases "uj src v") simp_all
        from Cons.IH [OF rest] Some nonempty True j show ?thesis
          by (auto simp: attribute_candidates_Cons resolved_def)
      qed
    qed
  qed
qed

lemma check_attributes_Inl:
  "check_attributes uj src u e attrs links = Inl ex \<Longrightarrow>
     u \<and> (\<exists>v \<in> attribute_candidates attrs e. uj src v = Inl ex)"
proof (induction attrs arbitrary: links)
  case Nil
  then show ?case by simp
next
  case (Cons a attrs)
  show ?case
  proof (cases "attrib e a")
    case None
    with Cons.prems have "check_attributes uj src u e attrs links = Inl ex" by simp
    from Cons.IH [OF this] show ?thesis
      by (auto simp: attribute_candidates_Cons)
  next
    case (Some v)
    show ?thesis
    proof (cases "v \<noteq> [] \<and> u \<and> isl (uj src v)")
      case True
      with Cons.prems Some have "uj src v = Inl ex"
        by (cases "uj src v") simp_all
      with True Some show ?thesis
        by (auto simp: attribute_candidates_Cons)
    next
      case False
      with Cons.prems Some obtain links' where
        "check_attributes uj src u e attrs links' = Inl ex"
        by (cases "uj src v") (auto split: if_splits)
      from Cons.IH [OF this] show ?thesis
        by (auto simp: attribute_candidates_Cons)
    qed
  qed
qed

lemma check_tags_eq:
  "check_tags e tags links = links \<union> text_candidates tags e"
proof (induction tags arbitrary: links)
  case Nil
  show ?case by (simp add: text_candidates_def tag_matches_def)
next
  case (Cons t tags)
  show ?case
    by (auto simp: Cons.IH text_candidates_def tag_matches_def strip_Nil
        split: option.splits if_splits)
qed

lemma for_each_Inr:
  assumes "\<And>c s s'. c \<in> set cs \<Longrightarrow> body c s = Inr s' \<Longrightarrow> s' = s \<union> g c \<and> P c"
    and "for_each body cs s = Inr s'"
  shows "s' = s \<union> (\<Union>c \<in> set cs. g c) \<and> (\<forall>c \<in> set cs. P c)"
  using assms
proof (induction cs arbitrary: s)
  case Nil
  then show ?case by simp
next
  case (Cons c cs)
  from Cons.prems(2) obtain s1 where 1: "body c s = Inr s1"
    and 2: "for_each body cs s1 = Inr s'"
    by (cases "body c s") simp_all
  from Cons.prems(1) [of c s s1] 1 have h: "s1 = s \<union> g c" and p: "P c" by simp_all
  have "s' = s1 \<union> (\<Union>c \<in> set cs. g c) \<and> (\<forall>c \<in> set cs. P c)"
    by (rule Cons.IH [OF _ 2]) (simp add: Cons.prems(1))
  with h p show ?case by auto
qed

lemma for_each_Inl:
  "for_each body cs s = Inl ex \<Longrightarrow> \<exists>c \<in> set cs. \<exists>s1. body c s1 = Inl ex"
proof (induction cs arbitrary: s)
  case Nil
  then show ?case by simp
next
  case (Cons c cs)
  show ?case
  proof (cases "body c s")
    case (Inl e)
    with Cons.prems show ?thesis by auto
  next
    case (Inr s1)
    with Cons.prems have "for_each body cs s1 = Inl ex" by simp
    from Cons.IH [OF this] show ?thesis by auto
  qed
qed

lemma find_links_Inr:
  "find_links uj src u attrs tags n e links = Inr L \<Longrightarrow>
     L = links \<union> document_links uj src u attrs tags e
     \<and> nesting e \<le> n \<and> resolution_succeeds uj src u attrs e"
proof (induction n arbitrary: e links L)
  case 0
  then show ?case by simp
next
  case (Suc n)
  obtain t a x cs where e: "e = Element t a x cs" by (cases e)
  from Suc.prems obtain L1 where 1: "check_attributes uj src u e attrs links = Inr L1"
    and 2: "for_each (find_links uj src u attrs tags n) cs (check_tags e tags L1) = Inr L"
    by (cases "check_attributes uj src u e attrs links") (simp_all add: e)
  note own = check_attributes_Inr [OF 1]
  have "L = check_tags e tags L1 \<union> (\<Union>c \<in> set cs. document_links uj src u attrs tags c)
      \<and> (\<forall>c \<in> set cs. nesting c \<le> n \<and> resolution_succeeds uj src u attrs c)"
    by (rule for_each_Inr [OF _ 2]) (use Suc.IH in blast)
  then have l: "L = check_tags e tags L1 \<union> (\<Union>c \<in> set cs. document_links uj src u attrs tags c)"
    and below: "\<And>c. c \<in> set cs \<Longrightarrow> nesting c \<le> n"
    and res: "\<And>c. c \<in> set cs \<Longrightarrow> resolution_succeeds uj src u attrs c"
    by blast+
  have "L = links \<union> document_links uj src u attrs tags e"
    unfolding e document_links_Element using l own by (auto simp: check_tags_eq e)
  moreover have "nesting e \<le> Suc n"
  proof -
    have "foldr max (map nesting cs) 0 \<le> n"
      by (rule foldr_max_least) (use below in auto)
    then show ?thesis by (simp add: e)
  qed
  moreover have "resolution_succeeds uj src u attrs e"
    using own res unfolding resolution_succeeds_def e by auto
  ultimately show ?case by blast
qed

lemma find_links_Inl:
  "find_links uj src u attrs tags n e links = Inl ex \<Longrightarrow>
     (ex = RecursionError \<and> n < nesting e)
     \<or> (u \<and> (\<exists>d \<in> set (elements e). \<exists>v \<in> attribute_candidates attrs d. uj src v = Inl ex))"
proof (induction n arbitrary: e links)
  case 0
  then show ?case by (simp add: nesting_positive)
next
  case (Suc n)
  obtain t a x cs where e: "e = Element t a x cs" by (cases e)
  show ?case
  proof (cases "check_attributes uj src u e attrs links")
    case (Inl e1)
    with Suc.prems have "e1 = ex" by simp
    with check_attributes_Inl [of uj src u e attrs links ex] Inl elements_self [of e]
    show ?thesis by blast
  next
    case (Inr L1)
    with Suc.prems
    have "for_each (find_links uj src u attrs tags n) cs (check_tags e tags L1) = Inl ex"
      by (simp add: e)
    from for_each_Inl [OF this] obtain c s1 where c: "c \<in> set cs"
      and r: "find_links uj src u attrs tags n c s1 = Inl ex"
      by blast
    from Suc.IH [OF r] show ?thesis
    proof
      assume "ex = RecursionError \<and> n < nesting c"
      with nesting_child [OF c] show ?thesis by (simp add: e)
    next
      assume "u \<and> (\<exists>d \<in> set (elements c). \<exists>v \<in> attribute_candidates attrs d. uj src v = Inl ex)"
      with c show ?thesis unfolding e by (meson elements_child)
    qed
  qed
qed

lemma find_links_succeeds:
  assumes "nesting e \<le> n" and "resolution_succeeds uj src u attrs e"
  shows "find_links uj src u attrs tags n e links =
     Inr (links \<union> document_links uj src u attrs tags e)"
proof (cases "find_links uj src u attrs tags n e links")
  case (Inl ex)
  from find_links_Inl [OF this] assms show ?thesis
    unfolding resolution_succeeds_def by fastforce
next
  case (Inr L)
  from find_links_Inr [OF this] Inr show ?thesis by simp
qed

section \<open>Properties of the extraction\<close>

subsection \<open>Outcomes of the call, the order of the result\<close>

lemma handlers_Exception: "is_Exception e \<Longrightarrow> handlers e = Inr []"
  by (simp add: handlers_def)

lemma handlers_not_Exception: "\<not> is_Exception e \<Longrightarrow> handlers e = Inl e"
  by (cases e) (simp_all add: handlers_def)

lemma extract_fetch_raises:
  "fetch src u = Inl e \<Longrightarrow>
     extract_links_from_xml uj fetch parse limit src u ct ca = handlers e"
  by (simp add: extract_links_from_xml_def try_body_def)

lemma extract_parse_raises:
  "fetch src u = Inr content \<Longrightarrow> parse content = Inl e \<Longrightarrow>
     extract_links_from_xml uj fetch parse limit src u ct ca = handlers e"
  by (simp add: extract_links_from_xml_def try_body_def)

lemma extract_traversal:
  "fetch src u = Inr content \<Longrightarrow> parse content = Inr root \<Longrightarrow>
     extract_links_from_xml uj fetch parse limit src u ct ca =
       (case find_links uj src u (default_attrs @ or_empty ca) (default_tags @ or_empty ct)
               limit root {} of
          Inl e \<Rightarrow> handlers e
        | Inr links \<Rightarrow> Inr (sorted_list_of_set links))"
  by (simp add: extract_links_from_xml_def try_body_def split: sum.split)

lemma non_Exception_propagates:
  "fetch src u = Inl e \<Longrightarrow> \<not> is_Exception e \<Longrightarrow>
     extract_links_from_xml uj fetch parse limit src u ct ca = Inl e"
  by (simp add: extract_fetch_raises handlers_not_Exception)

lemma extract_ok:
  assumes "fetch src u = Inr content" and "parse content = Inr root"
    and "nesting root \<le> limit"
    and "resolution_succeeds uj src u (default_attrs @ or_empty ca) root"
  shows "extract_links_from_xml uj fetch parse limit src u ct ca =
     Inr (sorted_list_of_set
            (document_links uj src u (default_attrs @ or_empty ca)
               (default_tags @ or_empty ct) root))"
  using assms(1,2) find_links_succeeds [OF assms(3,4)]
  by (simp add: extract_traversal)

lemma extract_ok_set:
  assumes "fetch src u = Inr content" and "parse content = Inr root"
    and "nesting root \<le> limit"
    and "resolution_succeeds uj src u (default_attrs @ or_empty ca) root"
  shows "\<exists>result. extract_links_from_xml uj fetch parse limit src u ct ca = Inr result
     \<and> set result = document_links uj src u (default_attrs @ or_empty ca)
          (default_tags @ or_empty ct) root"
  using extract_ok [where fetch = fetch and parse = parse, OF assms]
  by (simp add: finite_document_links)

text \<open>When the traversal raises, and what is raised derives from \<^verbatim>\<open>Exception\<close>, the
  last handler gives the empty list: every link collected so far is lost.\<close>

lemma extract_traversal_raises:
  assumes "fetch src u = Inr content" and "parse content = Inr root"
    and "\<not> (nesting root \<le> limit
            \<and> resolution_succeeds uj src u (default_attrs @ or_empty ca) root)"
    and "\<And>v e. uj src v = Inl e \<Longrightarrow> is_Exception e"
  shows "extract_links_from_xml uj fetch parse limit src u ct ca = Inr []"
proof (cases "find_links uj src u (default_attrs @ or_empty ca) (default_tags @ or_empty ct)
    limit root {}")
  case (Inl ex)
  from find_links_Inl [OF this] assms(4) have "is_Exception ex" by auto
  with Inl assms(1,2) show ?thesis
    by (simp add: extract_traversal handlers_Exception)
next
  case (Inr L)
  from find_links_Inr [OF this] assms(3) show ?thesis by simp
qed

lemma extract_returns:
  assumes "fetch src u = Inr content" and "parse content = Inr root"
    and "\<And>v e. uj src v = Inl e \<Longrightarrow> is_Exception e"
  shows "\<exists>result. extract_links_from_xml uj fetch parse limit src u ct ca = Inr result
     \<and> distinct result \<and> sorted result"
proof (cases "nesting root \<le> limit
    \<and> resolution_succeeds uj src u (default_attrs @ or_empty ca) root")
  case True
  then show ?thesis
    using extract_ok [where fetch = fetch and parse = parse, OF assms(1) assms(2)] by simp
next
  case False
  from extract_traversal_raises [where fetch = fetch and parse = parse,
      OF assms(1) assms(2) False assms(3)]
  show ?thesis
    by simp
qed

lemma extract_without_candidates:
  assumes "fetch src u = Inr content" and "parse content = Inr root"
    and "\<And>d. d \<in> set (elements root) \<Longrightarrow>
           attribute_candidates (default_attrs @ or_empty ca) d = {}
           \<and> text_candidates (default_tags @ or_empty ct) d = {}"
  shows "extract_links_from_xml uj fetch parse limit src u ct ca = Inr []"
proof (cases "find_links uj src u (default_attrs @ or_empty ca) (default_tags @ or_empty ct)
    limit root {}")
  case (Inl ex)
  from find_links_Inl [OF this] assms(3) have "ex = RecursionError" by auto
  with Inl assms(1,2) show ?thesis
    by (simp add: extract_traversal handlers_def)
next
  case (Inr L)
  from find_links_Inr [OF this] assms(3) have "L = {}"
    by (simp add: document_links_def)
  with Inr assms(1,2) show ?thesis
    by (simp add: extract_traversal)
qed

lemma urljoin_sample_Exception: "urljoin_sample base reference = Inl e \<Longrightarrow> is_Exception e"
  by (auto simp: urljoin_sample_def split: if_splits)

lemma strictly_ascending:
  "sorted_wrt (<) (result :: string list) \<longleftrightarrow>
     sorted_wrt (\<lambda>a b. (a, b) \<in> lexord {(c, d). (of_char c :: nat) < of_char d}) result"
proof -
  have "(<) = (\<lambda>a b :: string. (a, b) \<in> lexord {(c, d). (of_char c :: nat) < of_char d})"
    by (intro ext) (simp add: list_less_def less_char_def)
  then show ?thesis by simp
qed

subsection \<open>The claims of the specification\<close>

text \<open>
  Claim C1, as amended. When the source is a URL (\<open>is_url\<close> is \<open>True\<close>), the document is
  fetched and parsed, its nesting is within the recursion limit and \<open>urljoin\<close> raises for
  no attribute candidate of the document, the result is the sorted list of: every
  candidate link found in a recognized attribute of an element of the document,
  resolved by \<open>urljoin\<close> against the source URL, and every candidate link found as the
  text of a matching element, as it is, without resolution.
\<close>

theorem attribute_links_resolved_text_links_verbatim:
  assumes "fetch xml_source True = Inr content" and "parse content = Inr root"
    and "nesting root \<le> limit"
    and "\<forall>d \<in> set (elements root).
           \<forall>v \<in> attribute_candidates (default_attrs @ or_empty custom_attrs) d.
             \<exists>joined. urljoin xml_source v = Inr joined"
  shows "extract_links_from_xml urljoin fetch parse limit xml_source True custom_tags
       custom_attrs =
     Inr (sorted_list_of_set
            ((\<lambda>v. projr (urljoin xml_source v)) `
               (\<Union>d \<in> set (elements root).
                  attribute_candidates (default_attrs @ or_empty custom_attrs) d)
             \<union> (\<Union>d \<in> set (elements root).
                  text_candidates (default_tags @ or_empty custom_tags) d)))"
proof -
  let ?attrs = "default_attrs @ or_empty custom_attrs"
  let ?tags = "default_tags @ or_empty custom_tags"
  have r: "resolution_succeeds urljoin xml_source True ?attrs root"
    using assms(4) by (simp add: resolution_succeeds_def)
  have one: "resolved urljoin xml_source True v = {projr (urljoin xml_source v)}"
    if "d \<in> set (elements root)" and "v \<in> attribute_candidates ?attrs d" for d v
    using assms(4) that by (fastforce simp: resolved_def)
  have "document_links urljoin xml_source True ?attrs ?tags root =
      (\<lambda>v. projr (urljoin xml_source v)) `
        (\<Union>d \<in> set (elements root). attribute_candidates ?attrs d)
      \<union> (\<Union>d \<in> set (elements root). text_candidates ?tags d)"
    unfolding document_links_def using one by auto
  with extract_ok [where fetch = fetch and parse = parse, OF assms(1) assms(2) assms(3) r]
  show ?thesis by simp
qed

text \<open>The theorem at the two examples of the claim: \<^verbatim>\<open><a href="/page">\<close> gives
  \<^verbatim>\<open>https://example.com/page\<close>, and \<^verbatim>\<open><link>https://example.com/feed-item</link>\<close> gives
  its text.\<close>

theorem attribute_links_resolved_text_links_verbatim_witness:
  "fetch_gives ''xml'' ''https://example.com/index.xml'' True = Inr ''xml''
   \<and> parse_gives a_href_page ''xml'' = Inr a_href_page
   \<and> parse_gives link_feed_item ''xml'' = Inr link_feed_item
   \<and> nesting a_href_page \<le> 1000 \<and> nesting link_feed_item \<le> 1000
   \<and> urljoin_sample ''https://example.com/index.xml'' ''/page''
       = Inr ''https://example.com/page''
   \<and> extract_links_from_xml urljoin_sample (fetch_gives ''xml'') (parse_gives a_href_page)
        1000 ''https://example.com/index.xml'' True None None
       = Inr [''https://example.com/page'']
   \<and> extract_links_from_xml urljoin_sample (fetch_gives ''xml'') (parse_gives link_feed_item)
        1000 ''https://example.com/index.xml'' True None None
       = Inr [''https://example.com/feed-item'']"
proof -
  let ?src = "''https://example.com/index.xml''"
  have f: "fetch_gives ''xml'' ?src True = Inr ''xml''"
    by (simp add: fetch_gives_def)
  have p1: "parse_gives a_href_page ''xml'' = Inr a_href_page"
    and p2: "parse_gives link_feed_item ''xml'' = Inr link_feed_item"
    by (simp_all add: parse_gives_def)
  have n1: "nesting a_href_page \<le> 1000" and n2: "nesting link_feed_item \<le> 1000"
    by (simp_all add: a_href_page_def link_feed_item_def)
  have j: "urljoin_sample ?src ''/page'' = Inr ''https://example.com/page''"
    by (simp add: urljoin_sample_def)
  have r1: "\<forall>d \<in> set (elements a_href_page).
           \<forall>v \<in> attribute_candidates (default_attrs @ or_empty None) d.
             \<exists>joined. urljoin_sample ?src v = Inr joined"
    by (simp add: a_href_page_def attribute_candidates_def default_attrs_def or_empty_def j)
  have r2: "\<forall>d \<in> set (elements link_feed_item).
           \<forall>v \<in> attribute_candidates (default_attrs @ or_empty None) d.
             \<exists>joined. urljoin_sample ?src v = Inr joined"
    by (simp add: link_feed_item_def attribute_candidates_def)
  have v1: "sorted_list_of_set
      ((\<lambda>v. projr (urljoin_sample ?src v)) `
         (\<Union>d \<in> set (elements a_href_page).
            attribute_candidates (default_attrs @ or_empty None) d)
       \<union> (\<Union>d \<in> set (elements a_href_page).
            text_candidates (default_tags @ or_empty None) d))
      = [''https://example.com/page'']"
    by code_simp
  have v2: "sorted_list_of_set
      ((\<lambda>v. projr (urljoin_sample ?src v)) `
         (\<Union>d \<in> set (elements link_feed_item).
            attribute_candidates (default_attrs @ or_empty None) d)
       \<union> (\<Union>d \<in> set (elements link_feed_item).
            text_candidates (default_tags @ or_empty None) d))
      = [''https://example.com/feed-item'']"
    by code_simp
  from attribute_links_resolved_text_links_verbatim [where fetch = "fetch_gives ''xml''"
      and parse = "parse_gives a_href_page" and urljoin = urljoin_sample
      and custom_tags = None, OF f p1 n1 r1]
    attribute_links_resolved_text_links_verbatim [where fetch = "fetch_gives ''xml''"
      and parse = "parse_gives link_feed_item" and urljoin = urljoin_sample
      and custom_tags = None, OF f p2 n2 r2]
  show ?thesis
    by (simp only: v1 v2 f p1 p2 n1 n2 j simp_thms)
qed

text \<open>
  Claim C1 as stated fails. In \<^verbatim>\<open><root><a href="//["/><loc>https://example.com/a</loc></root>\<close>
  the element \<^verbatim>\<open>loc\<close> has a text candidate, but \<^verbatim>\<open>urljoin\<close> raises \<^verbatim>\<open>ValueError\<close> for
  \<^verbatim>\<open>//[\<close>, the last handler catches it and the result is empty. A document nested
  deeper than the recursion limit gives the empty list in the same way.
\<close>

theorem malformed_href_discards_text_link:
  "Element ''loc'' Map.empty (Some ''https://example.com/a'') []
     \<in> set (elements malformed_href_document)
   \<and> ''https://example.com/a''
     \<in> text_candidates (default_tags @ or_empty None)
         (Element ''loc'' Map.empty (Some ''https://example.com/a'') [])
   \<and> urljoin_sample ''https://example.com/index.xml'' ''//['' = Inl ValueError
   \<and> extract_links_from_xml urljoin_sample (fetch_gives ''xml'')
        (parse_gives malformed_href_document) 1000 ''https://example.com/index.xml'' True
        None None = Inr []
   \<and> extract_links_from_xml urljoin_sample (fetch_gives ''xml'')
        (parse_gives (deep 1000 link_feed_item)) 1000 ''https://example.com/index.xml'' True
        None None = Inr []"
proof -
  have 1: "Element ''loc'' Map.empty (Some ''https://example.com/a'') []
     \<in> set (elements malformed_href_document)"
    by (simp add: malformed_href_document_def)
  have 2: "''https://example.com/a''
     \<in> text_candidates (default_tags @ or_empty None)
         (Element ''loc'' Map.empty (Some ''https://example.com/a'') [])"
    by code_simp
  have 3: "urljoin_sample ''https://example.com/index.xml'' ''//['' = Inl ValueError"
    by (simp add: urljoin_sample_def)
  have 4: "extract_links_from_xml urljoin_sample (fetch_gives ''xml'')
        (parse_gives malformed_href_document) 1000 ''https://example.com/index.xml'' True
        None None = Inr []"
    by code_simp
  have 5: "extract_links_from_xml urljoin_sample (fetch_gives ''xml'')
        (parse_gives (deep 1000 link_feed_item)) 1000 ''https://example.com/index.xml'' True
        None None = Inr []"
    by (rule extract_traversal_raises [where content = "''xml''"
          and root = "deep 1000 link_feed_item"])
      (simp_all add: fetch_gives_def parse_gives_def nesting_deep link_feed_item_def
        urljoin_sample_Exception)
  from 1 2 3 4 5 show ?thesis by (intro conjI)
qed

text \<open>
  Claim C2. When fetching raises an exception derived from \<^verbatim>\<open>Exception\<close> (a network or
  file failure: \<^verbatim>\<open>RequestException\<close>, \<^verbatim>\<open>FileNotFoundError\<close>, another \<^verbatim>\<open>OSError\<close>), or
  the content is fetched and parsing raises one (\<^verbatim>\<open>ParseError\<close>), the function returns
  the empty list and raises nothing; the value returned is the one returned for a
  readable document without links, so the two cannot be told apart.
\<close>

theorem fetch_or_parse_failure_gives_empty:
  assumes "(\<exists>e. fetch xml_source is_url = Inl e \<and> is_Exception e)
     \<or> (\<exists>content e. fetch xml_source is_url = Inr content \<and> parse content = Inl e
           \<and> is_Exception e)"
  shows "extract_links_from_xml urljoin fetch parse limit xml_source is_url custom_tags
         custom_attrs
       = Inr []
     \<and> extract_links_from_xml urljoin fetch parse limit xml_source is_url custom_tags
         custom_attrs
       = extract_links_from_xml urljoin (fetch_gives readable) (parse_gives urlset_empty)
           limit xml_source is_url custom_tags custom_attrs"
proof -
  have failed: "extract_links_from_xml urljoin fetch parse limit xml_source is_url custom_tags
      custom_attrs = Inr []"
    using assms by (auto simp: extract_fetch_raises extract_parse_raises handlers_Exception)
  have "extract_links_from_xml urljoin (fetch_gives readable) (parse_gives urlset_empty)
      limit xml_source is_url custom_tags custom_attrs = Inr []"
    by (rule extract_without_candidates [where content = readable and root = urlset_empty])
      (simp_all add: fetch_gives_def parse_gives_def urlset_empty_def
        attribute_candidates_empty_attrib text_candidates_no_text)
  with failed show ?thesis by simp
qed

text \<open>The theorem at a missing file, a failed request and a malformed document.\<close>

theorem fetch_or_parse_failure_gives_empty_witness:
  "extract_links_from_xml urljoin_sample (fetch_raises FileNotFoundError)
     (parse_gives sitemap_urlset) 1000 ''missing.xml'' False None None = Inr []
   \<and> extract_links_from_xml urljoin_sample (fetch_raises RequestException)
     (parse_gives sitemap_urlset) 1000 ''https://example.com/index.xml'' True None None
     = Inr []
   \<and> extract_links_from_xml urljoin_sample (fetch_gives ''<urlset><url>'')
     (parse_raises ParseError) 1000 ''https://example.com/index.xml'' True None None
     = Inr []"
proof -
  have 1: "(\<exists>e. fetch_raises FileNotFoundError ''missing.xml'' False = Inl e \<and> is_Exception e)
     \<or> (\<exists>content e. fetch_raises FileNotFoundError ''missing.xml'' False = Inr content
           \<and> parse_gives sitemap_urlset content = Inl e \<and> is_Exception e)"
    by (simp add: fetch_raises_def)
  have 2: "(\<exists>e. fetch_raises RequestException ''https://example.com/index.xml'' True = Inl e
           \<and> is_Exception e)
     \<or> (\<exists>content e. fetch_raises RequestException ''https://example.com/index.xml'' True
             = Inr content
           \<and> parse_gives sitemap_urlset content = Inl e \<and> is_Exception e)"
    by (simp add: fetch_raises_def)
  have 3: "(\<exists>e. fetch_gives ''<urlset><url>'' ''https://example.com/index.xml'' True = Inl e
           \<and> is_Exception e)
     \<or> (\<exists>content e. fetch_gives ''<urlset><url>'' ''https://example.com/index.xml'' True
             = Inr content
           \<and> parse_raises ParseError content = Inl e \<and> is_Exception e)"
    by (simp add: fetch_gives_def parse_raises_def)
  from fetch_or_parse_failure_gives_empty [where fetch = "fetch_raises FileNotFoundError"
      and parse = "parse_gives sitemap_urlset" and urljoin = urljoin_sample
      and limit = 1000 and custom_tags = None and custom_attrs = None, OF 1]
    fetch_or_parse_failure_gives_empty [where fetch = "fetch_raises RequestException"
      and parse = "parse_gives sitemap_urlset" and urljoin = urljoin_sample
      and limit = 1000 and custom_tags = None and custom_attrs = None, OF 2]
    fetch_or_parse_failure_gives_empty [where fetch = "fetch_gives ''<urlset><url>''"
      and parse = "parse_raises ParseError" and urljoin = urljoin_sample
      and limit = 1000 and custom_tags = None and custom_attrs = None, OF 3]
  show ?thesis by blast
qed

text \<open>
  Claim C3. For a document that is fetched and parsed, the function returns a list
  without duplicates, sorted ascending; the order is the lexicographic one on the
  character codes, written out in the last conjunct (strictly ascending). This covers
  the traversal that raises \<^verbatim>\<open>ValueError\<close> or \<^verbatim>\<open>RecursionError\<close>, where the list is
  empty; the hypothesis on \<open>urljoin\<close> leaves out only an exception that no handler
  catches.
\<close>

theorem result_is_sorted_and_distinct:
  assumes "fetch xml_source is_url = Inr content" and "parse content = Inr root"
    and "\<forall>reference e. urljoin xml_source reference = Inl e \<longrightarrow> is_Exception e"
  shows "\<exists>result.
     extract_links_from_xml urljoin fetch parse limit xml_source is_url custom_tags
       custom_attrs = Inr result
     \<and> distinct result \<and> sorted result
     \<and> sorted_wrt (\<lambda>a b. (a, b) \<in> lexord {(c, d). (of_char c :: nat) < of_char d}) result"
proof -
  from extract_returns [where fetch = fetch and parse = parse, OF assms(1) assms(2)] assms(3)
  obtain result where r: "extract_links_from_xml urljoin fetch parse limit xml_source is_url
      custom_tags custom_attrs = Inr result"
    and d: "distinct result" and s: "sorted result"
    by blast
  from d s have "sorted_wrt (<) result" by (simp add: strict_sorted_iff)
  then have "sorted_wrt (\<lambda>a b. (a, b) \<in> lexord {(c, d). (of_char c :: nat) < of_char d})
      result"
    by (simp only: strictly_ascending)
  with r d s show ?thesis by blast
qed

text \<open>The theorem at \<^verbatim>\<open><url href="/x">https://y</url>\<close>, which has two links.\<close>

theorem result_is_sorted_and_distinct_witness:
  "fetch_gives ''xml'' ''https://example.com/index.xml'' True = Inr ''xml''
   \<and> parse_gives url_href_text ''xml'' = Inr url_href_text
   \<and> extract_links_from_xml urljoin_sample (fetch_gives ''xml'') (parse_gives url_href_text)
        1000 ''https://example.com/index.xml'' True None None
       = Inr [''https://example.com/x'', ''https://y'']
   \<and> (\<exists>result.
        extract_links_from_xml urljoin_sample (fetch_gives ''xml'') (parse_gives url_href_text)
          1000 ''https://example.com/index.xml'' True None None = Inr result
        \<and> distinct result \<and> sorted result
        \<and> sorted_wrt (\<lambda>a b. (a, b) \<in> lexord {(c, d). (of_char c :: nat) < of_char d})
             result)"
proof -
  have f: "fetch_gives ''xml'' ''https://example.com/index.xml'' True = Inr ''xml''"
    by (simp add: fetch_gives_def)
  have p: "parse_gives url_href_text ''xml'' = Inr url_href_text"
    by (simp add: parse_gives_def)
  have u: "\<forall>reference e. urljoin_sample ''https://example.com/index.xml'' reference = Inl e
      \<longrightarrow> is_Exception e"
    by (simp add: urljoin_sample_Exception)
  have v: "extract_links_from_xml urljoin_sample (fetch_gives ''xml'')
        (parse_gives url_href_text) 1000 ''https://example.com/index.xml'' True None None
       = Inr [''https://example.com/x'', ''https://y'']"
    by code_simp
  from f p v result_is_sorted_and_distinct [where fetch = "fetch_gives ''xml''"
      and parse = "parse_gives url_href_text" and urljoin = urljoin_sample
      and limit = 1000 and custom_tags = None and custom_attrs = None, OF f p u]
  show ?thesis by blast
qed

text \<open>
  Claim C4. An element whose tag without its namespace is a recognized tag (the tag
  itself when it has no closing brace, what follows the last closing brace otherwise),
  or whose full tag is the sitemap namespace in braces followed by a recognized tag,
  and whose trimmed text is not empty, has that trimmed text as a candidate link: the
  loop over the tags puts it into the set of links, and it is in the result when the
  traversal of the document raises nothing. The sitemap document
  \<^verbatim>\<open><urlset><url><loc>https://example.com/a</loc></url></urlset>\<close> gives exactly that one
  link, for every \<open>urljoin\<close> and either value of \<open>is_url\<close>.
\<close>

theorem matching_tag_text_is_link:
  assumes "name \<in> set (default_tags @ or_empty custom_tags)"
    and "(CHR ''}'' \<notin> set name \<and> (tag d = name \<or> (\<exists>ns. tag d = ns @ ''}'' @ name)))
       \<or> tag d = ''{http://www.sitemaps.org/schemas/sitemap/0.9}'' @ name"
    and "text_of d = Some txt" and "strip txt \<noteq> []"
  shows "check_tags d (default_tags @ or_empty custom_tags) links = insert (strip txt) links
     \<and> (\<forall>content root.
           fetch xml_source is_url = Inr content \<and> parse content = Inr root
           \<and> d \<in> set (elements root) \<and> nesting root \<le> limit
           \<and> resolution_succeeds urljoin xml_source is_url
               (default_attrs @ or_empty custom_attrs) root
           \<longrightarrow> (\<exists>result.
                  extract_links_from_xml urljoin fetch parse limit xml_source is_url
                    custom_tags custom_attrs = Inr result
                  \<and> strip txt \<in> set result))
     \<and> extract_links_from_xml urljoin (fetch_gives content') (parse_gives sitemap_urlset)
         (Suc (Suc (Suc limit))) xml_source is_url None None = Inr [''https://example.com/a'']"
proof -
  let ?tags = "default_tags @ or_empty custom_tags"
  let ?attrs = "default_attrs @ or_empty custom_attrs"
  have "tag_name d = name
      \<or> tag d = ''{http://www.sitemaps.org/schemas/sitemap/0.9}'' @ name"
    using assms(2) tag_name_strips_namespace [of name d] tag_name_without_namespace [of name d]
    by blast
  then have m: "tag_matches ?tags d"
    using assms(1) unfolding tag_matches_def sitemap_ns_def by auto
  then have c: "text_candidates ?tags d = {strip txt}"
    using assms(3,4) by (simp add: text_candidates_def)
  then have loop: "check_tags d ?tags links = insert (strip txt) links"
    by (simp add: check_tags_eq)
  have doc: "\<exists>result.
      extract_links_from_xml urljoin fetch parse limit xml_source is_url custom_tags
        custom_attrs = Inr result
      \<and> strip txt \<in> set result"
    if f: "fetch xml_source is_url = Inr content" and p: "parse content = Inr root"
      and d: "d \<in> set (elements root)" and n: "nesting root \<le> limit"
      and r: "resolution_succeeds urljoin xml_source is_url ?attrs root"
    for content root
  proof -
    have "strip txt \<in> document_links urljoin xml_source is_url ?attrs ?tags root"
      using c d unfolding document_links_member by blast
    with extract_ok_set [where fetch = fetch and parse = parse, OF f p n r]
    show ?thesis by auto
  qed
  have s: "strip ''https://example.com/a'' = ''https://example.com/a''"
    by code_simp
  have l: "tag_name (Element ''{http://www.sitemaps.org/schemas/sitemap/0.9}loc''
      Map.empty (Some ''https://example.com/a'') []) = ''loc''"
    by (rule tag_name_strips_namespace
          [where ns = "''{http://www.sitemaps.org/schemas/sitemap/0.9''"]) simp_all
  have links: "document_links urljoin xml_source is_url (default_attrs @ or_empty None)
      (default_tags @ or_empty None) sitemap_urlset = {''https://example.com/a''}"
    by (simp add: document_links_def sitemap_urlset_def attribute_candidates_empty_attrib
        text_candidates_no_text text_candidates_def tag_matches_def l s default_tags_def)
  have ef: "fetch_gives content' xml_source is_url = Inr content'"
    and ep: "parse_gives sitemap_urlset content' = Inr sitemap_urlset"
    by (simp_all add: fetch_gives_def parse_gives_def)
  have en: "nesting sitemap_urlset \<le> Suc (Suc (Suc limit))"
    by (simp add: sitemap_urlset_def)
  have er: "resolution_succeeds urljoin xml_source is_url (default_attrs @ or_empty None)
      sitemap_urlset"
    by (simp add: resolution_succeeds_def sitemap_urlset_def
        attribute_candidates_empty_attrib)
  have example: "extract_links_from_xml urljoin (fetch_gives content')
      (parse_gives sitemap_urlset) (Suc (Suc (Suc limit))) xml_source is_url None None
      = Inr [''https://example.com/a'']"
    using extract_ok [where fetch = "fetch_gives content'"
        and parse = "parse_gives sitemap_urlset" and ct = None, OF ef ep en er]
    by (simp only: links) simp
  from loop doc example show ?thesis by blast
qed

text \<open>The theorem at an Atom \<^verbatim>\<open>link\<close> element, whose namespace is not the sitemap one:
  the tag matches through its local name only.\<close>

theorem matching_tag_text_is_link_witness:
  "tag atom_link = ''{http://www.w3.org/2005/Atom'' @ ''}'' @ ''link''
   \<and> text_of atom_link = Some ''https://example.com/feed-item''
   \<and> strip ''https://example.com/feed-item'' = ''https://example.com/feed-item''
   \<and> check_tags atom_link (default_tags @ or_empty None) {}
       = {''https://example.com/feed-item''}
   \<and> (\<exists>result.
        extract_links_from_xml urljoin_sample (fetch_gives ''xml'') (parse_gives atom_link)
          1000 ''https://example.com/feed.xml'' True None None = Inr result
        \<and> strip ''https://example.com/feed-item'' \<in> set result)
   \<and> extract_links_from_xml urljoin_sample (fetch_gives ''xml'') (parse_gives sitemap_urlset)
        1000 ''https://example.com/sitemap.xml'' True None None
       = Inr [''https://example.com/a'']"
proof -
  let ?src = "''https://example.com/feed.xml''"
  have name: "''link'' \<in> set (default_tags @ or_empty None)"
    by (simp add: default_tags_def)
  have t: "tag atom_link = ''{http://www.w3.org/2005/Atom'' @ ''}'' @ ''link''"
    by (simp add: atom_link_def)
  then have m: "(CHR ''}'' \<notin> set ''link''
        \<and> (tag atom_link = ''link'' \<or> (\<exists>ns. tag atom_link = ns @ ''}'' @ ''link'')))
       \<or> tag atom_link = ''{http://www.sitemaps.org/schemas/sitemap/0.9}'' @ ''link''"
    by (intro disjI1 conjI disjI2 exI [of _ "''{http://www.w3.org/2005/Atom''"]) simp_all
  have x: "text_of atom_link = Some ''https://example.com/feed-item''"
    by (simp add: atom_link_def)
  have s: "strip ''https://example.com/feed-item'' = ''https://example.com/feed-item''"
    by code_simp
  then have n: "strip ''https://example.com/feed-item'' \<noteq> []"
    by simp
  note T = matching_tag_text_is_link [where d = atom_link and custom_tags = None
      and custom_attrs = None and fetch = "fetch_gives ''xml''"
      and parse = "parse_gives atom_link" and urljoin = urljoin_sample
      and xml_source = ?src and is_url = True and links = "{}" and limit = 1000
      and content' = "''xml''", OF name m x n]
  have loop: "check_tags atom_link (default_tags @ or_empty None) {}
       = {''https://example.com/feed-item''}"
    using T [THEN conjunct1] by (simp only: s)
  have h: "fetch_gives ''xml'' ?src True = Inr ''xml'' \<and> parse_gives atom_link ''xml'' = Inr atom_link
      \<and> atom_link \<in> set (elements atom_link) \<and> nesting atom_link \<le> 1000
      \<and> resolution_succeeds urljoin_sample ?src True (default_attrs @ or_empty None) atom_link"
    by (simp add: fetch_gives_def parse_gives_def elements_self resolution_succeeds_def
        atom_link_def attribute_candidates_empty_attrib)
  have doc: "\<exists>result.
        extract_links_from_xml urljoin_sample (fetch_gives ''xml'') (parse_gives atom_link)
          1000 ?src True None None = Inr result
        \<and> strip ''https://example.com/feed-item'' \<in> set result"
    by (rule T [THEN conjunct2, THEN conjunct1, rule_format, OF h])
  have example: "extract_links_from_xml urljoin_sample (fetch_gives ''xml'')
        (parse_gives sitemap_urlset) 1000 ''https://example.com/sitemap.xml'' True None None
       = Inr [''https://example.com/a'']"
    by code_simp
  from t x s loop doc example show ?thesis by (intro conjI)
qed

text \<open>
  Claim C5. The custom tags and attributes are added to the defaults. With the extra tag
  \<^verbatim>\<open>data-link\<close> the text of \<^verbatim>\<open><data-link>https://x</data-link>\<close> is in the result, and
  without it the result is empty; the default tag \<^verbatim>\<open>loc\<close> is still recognized beside the
  extra tag. The same holds for the extra attribute \<^verbatim>\<open>data-href\<close> and the default
  attribute \<^verbatim>\<open>href\<close>. The recursion limit allows at least the call on the root.
\<close>

theorem custom_tags_and_attrs_extend_defaults:
  "extract_links_from_xml urljoin (fetch_gives content) (parse_gives data_link_x) (Suc limit)
     xml_source is_url (Some [''data-link'']) None = Inr [''https://x'']
   \<and> extract_links_from_xml urljoin (fetch_gives content) (parse_gives data_link_x) (Suc limit)
     xml_source is_url None None = Inr []
   \<and> extract_links_from_xml urljoin (fetch_gives content) (parse_gives loc_x) (Suc limit)
     xml_source is_url (Some [''data-link'']) None = Inr [''https://x'']
   \<and> extract_links_from_xml urljoin (fetch_gives content) (parse_gives item_data_href)
     (Suc limit) xml_source False None (Some [''data-href'']) = Inr [''https://z'']
   \<and> extract_links_from_xml urljoin (fetch_gives content) (parse_gives item_data_href)
     (Suc limit) xml_source False None None = Inr []
   \<and> extract_links_from_xml urljoin (fetch_gives content) (parse_gives a_href_page)
     (Suc limit) xml_source False None (Some [''data-href'']) = Inr [''/page'']"
proof -
  have s: "strip ''https://x'' = ''https://x''" by code_simp
  have via: "extract_links_from_xml urljoin (fetch_gives content) (parse_gives root)
      (Suc limit) xml_source u ct ca = Inr result"
    if "nesting root \<le> Suc limit"
      and "resolution_succeeds urljoin xml_source u (default_attrs @ or_empty ca) root"
      and "sorted_list_of_set (document_links urljoin xml_source u
          (default_attrs @ or_empty ca) (default_tags @ or_empty ct) root) = result"
    for root u ct ca result
  proof -
    have "fetch_gives content xml_source u = Inr content"
      and "parse_gives root content = Inr root"
      by (simp_all add: fetch_gives_def parse_gives_def)
    from extract_ok [where fetch = "fetch_gives content" and parse = "parse_gives root"
        and ct = ct, OF this that(1) that(2)] that(3)
    show ?thesis by simp
  qed
  have 1: "extract_links_from_xml urljoin (fetch_gives content) (parse_gives data_link_x)
      (Suc limit) xml_source is_url (Some [''data-link'']) None = Inr [''https://x'']"
    by (rule via)
      (simp_all add: data_link_x_def resolution_succeeds_def document_links_def
        attribute_candidates_def text_candidates_def tag_matches_def tag_name_def s
        or_empty_def default_tags_def)
  have 2: "extract_links_from_xml urljoin (fetch_gives content) (parse_gives data_link_x)
      (Suc limit) xml_source is_url None None = Inr []"
    by (rule via)
      (simp_all add: data_link_x_def resolution_succeeds_def document_links_def
        attribute_candidates_def text_candidates_def tag_matches_def tag_name_def
        or_empty_def default_tags_def sitemap_ns_def)
  have 3: "extract_links_from_xml urljoin (fetch_gives content) (parse_gives loc_x)
      (Suc limit) xml_source is_url (Some [''data-link'']) None = Inr [''https://x'']"
    by (rule via)
      (simp_all add: loc_x_def resolution_succeeds_def document_links_def
        attribute_candidates_def text_candidates_def tag_matches_def tag_name_def s
        or_empty_def default_tags_def)
  have 4: "extract_links_from_xml urljoin (fetch_gives content) (parse_gives item_data_href)
      (Suc limit) xml_source False None (Some [''data-href'']) = Inr [''https://z'']"
    by (rule via)
      (simp_all add: item_data_href_def resolution_succeeds_def document_links_def
        attribute_candidates_def text_candidates_def or_empty_def default_attrs_def
        resolved_def)
  have 5: "extract_links_from_xml urljoin (fetch_gives content) (parse_gives item_data_href)
      (Suc limit) xml_source False None None = Inr []"
    by (rule via)
      (simp_all add: item_data_href_def resolution_succeeds_def document_links_def
        attribute_candidates_def text_candidates_def or_empty_def default_attrs_def
        resolved_def)
  have 6: "extract_links_from_xml urljoin (fetch_gives content) (parse_gives a_href_page)
      (Suc limit) xml_source False None (Some [''data-href'']) = Inr [''/page'']"
    by (rule via)
      (simp_all add: a_href_page_def resolution_succeeds_def document_links_def
        attribute_candidates_def text_candidates_def or_empty_def default_attrs_def
        resolved_def)
  from 1 2 3 4 5 6 show ?thesis by (intro conjI)
qed

text \<open>
  Claim C6. For an element with a recognized tag, the loop over the tags adds nothing
  when the text is missing or consists of whitespace only, and adds the text without
  the whitespace around it otherwise: the text is trimmed before it is tested and
  before it is inserted.
\<close>

theorem recognized_text_is_trimmed:
  assumes "tag_name e \<in> set link_tags
     \<or> (\<exists>t \<in> set link_tags. tag e = ''{http://www.sitemaps.org/schemas/sitemap/0.9}'' @ t)"
  shows "(text_of e = None \<longrightarrow> check_tags e link_tags links = links)
     \<and> (\<forall>txt. text_of e = Some txt \<and> list_all isspace txt
           \<longrightarrow> check_tags e link_tags links = links)
     \<and> (\<forall>ws1 core ws2.
           text_of e = Some (ws1 @ core @ ws2) \<and> list_all isspace ws1 \<and> list_all isspace ws2
           \<and> core \<noteq> [] \<and> \<not> isspace (hd core) \<and> \<not> isspace (last core)
           \<longrightarrow> check_tags e link_tags links = insert core links)
     \<and> (\<forall>txt. text_of e = Some txt
           \<longrightarrow> check_tags e link_tags links
               = (if strip txt = [] then links else insert (strip txt) links))"
proof -
  have m: "tag_matches link_tags e"
    using assms unfolding tag_matches_def sitemap_ns_def by auto
  have each: "check_tags e link_tags links
      = (if strip s = [] then links else insert (strip s) links)"
    if "text_of e = Some s" for s
    using m that by (simp add: check_tags_eq text_candidates_def)
  have missing: "text_of e = None \<longrightarrow> check_tags e link_tags links = links"
    by (simp add: check_tags_eq text_candidates_def)
  have blank: "check_tags e link_tags links = links"
    if "text_of e = Some s" and "list_all isspace s" for s
    using each [OF that(1)] strip_all_space [OF that(2)] by simp
  have padded: "check_tags e link_tags links = insert core links"
    if "text_of e = Some (ws1 @ core @ ws2)" and "list_all isspace ws1"
      and "list_all isspace ws2" and "core \<noteq> []" and "\<not> isspace (hd core)"
      and "\<not> isspace (last core)" for ws1 core ws2
    using each [OF that(1)] strip_core [OF that(2-6)] that(4) by simp
  from missing blank padded each show ?thesis by blast
qed

text \<open>The theorem at a padded text, a blank text and a missing text.\<close>

theorem recognized_text_is_trimmed_witness:
  "check_tags loc_padded default_tags {} = {''https://example.com/a''}
   \<and> check_tags (Element ''loc'' Map.empty (Some ''   '') []) default_tags {} = {}
   \<and> check_tags (Element ''loc'' Map.empty None []) default_tags {} = {}"
proof -
  let ?blank = "Element ''loc'' Map.empty (Some ''   '') []"
  let ?missing = "Element ''loc'' Map.empty None []"
  have m: "tag_name e \<in> set default_tags
     \<or> (\<exists>t \<in> set default_tags. tag e = ''{http://www.sitemaps.org/schemas/sitemap/0.9}'' @ t)"
    if "tag e = ''loc''" for e
    using that by (simp add: default_tags_def tag_name_def)
  have m1: "tag loc_padded = ''loc''" and m2: "tag ?blank = ''loc''"
    and m3: "tag ?missing = ''loc''"
    by (simp_all add: loc_padded_def)
  have p: "text_of loc_padded = Some (''  '' @ ''https://example.com/a'' @ ''  '')
      \<and> list_all isspace ''  '' \<and> list_all isspace ''  ''
      \<and> ''https://example.com/a'' \<noteq> [] \<and> \<not> isspace (hd ''https://example.com/a'')
      \<and> \<not> isspace (last ''https://example.com/a'')"
    by (simp add: loc_padded_def isspace_def)
  have b: "text_of ?blank = Some ''   '' \<and> list_all isspace ''   ''"
    by (simp add: isspace_def)
  have n: "text_of ?missing = None"
    by simp
  have 1: "check_tags loc_padded default_tags {} = insert ''https://example.com/a'' {}"
    by (rule recognized_text_is_trimmed [OF m [OF m1], THEN conjunct2, THEN conjunct2,
          THEN conjunct1, rule_format, OF p])
  have 2: "check_tags ?blank default_tags {} = {}"
    by (rule recognized_text_is_trimmed [OF m [OF m2], THEN conjunct2, THEN conjunct1,
          rule_format, OF b])
  have 3: "check_tags ?missing default_tags {} = {}"
    by (rule recognized_text_is_trimmed [OF m [OF m3], THEN conjunct1, rule_format, OF n])
  from 1 2 3 show ?thesis by (intro conjI)
qed

text \<open>
  Claim C7. A document that is fetched and parsed, in which no element carries a
  recognized attribute and no matching element has a text that is non-empty after
  trimming, gives the empty list, whatever the recursion limit.
\<close>

theorem no_candidates_gives_empty:
  assumes "fetch xml_source is_url = Inr content" and "parse content = Inr root"
    and "\<forall>d \<in> set (elements root).
           \<forall>a \<in> set (default_attrs @ or_empty custom_attrs). attrib d a = None"
    and "\<forall>d \<in> set (elements root).
           tag_matches (default_tags @ or_empty custom_tags) d
           \<longrightarrow> (\<forall>txt. text_of d = Some txt \<longrightarrow> strip txt = [])"
  shows "extract_links_from_xml urljoin fetch parse limit xml_source is_url custom_tags
       custom_attrs = Inr []"
proof -
  let ?attrs = "default_attrs @ or_empty custom_attrs"
  let ?tags = "default_tags @ or_empty custom_tags"
  have a: "attribute_candidates ?attrs d = {}" if "d \<in> set (elements root)" for d
    using assms(3) that attribute_candidates_iff [of _ ?attrs d] by fastforce
  have t: "text_candidates ?tags d = {}" if "d \<in> set (elements root)" for d
    using assms(4) that by (auto simp: text_candidates_def split: option.splits)
  show ?thesis
    by (rule extract_without_candidates [where fetch = fetch and parse = parse,
          OF assms(1) assms(2)]) (simp add: a t)
qed

text \<open>The theorem at a document with an attribute that is not recognized, a blank
  \<^verbatim>\<open>loc\<close> and a link in a tag that is not recognized.\<close>

theorem no_candidates_gives_empty_witness:
  "fetch_gives ''xml'' ''notes.xml'' False = Inr ''xml''
   \<and> parse_gives notes_document ''xml'' = Inr notes_document
   \<and> extract_links_from_xml urljoin_sample (fetch_gives ''xml'') (parse_gives notes_document)
        1000 ''notes.xml'' False None None = Inr []"
proof -
  have f: "fetch_gives ''xml'' ''notes.xml'' False = Inr ''xml''"
    by (simp add: fetch_gives_def)
  have p: "parse_gives notes_document ''xml'' = Inr notes_document"
    by (simp add: parse_gives_def)
  have a: "\<forall>d \<in> set (elements notes_document).
         \<forall>a \<in> set (default_attrs @ or_empty None). attrib d a = None"
    by (simp add: notes_document_def default_attrs_def or_empty_def)
  have s: "strip ''   '' = []"
    by (simp add: strip_def isspace_def)
  have t: "\<forall>d \<in> set (elements notes_document).
         tag_matches (default_tags @ or_empty None) d
         \<longrightarrow> (\<forall>txt. text_of d = Some txt \<longrightarrow> strip txt = [])"
    by (simp add: notes_document_def default_tags_def or_empty_def tag_matches_def
        tag_name_def sitemap_ns_def s)
  from no_candidates_gives_empty [where fetch = "fetch_gives ''xml''"
      and parse = "parse_gives notes_document" and urljoin = urljoin_sample
      and limit = 1000 and custom_tags = None, OF f p a t] f p
  show ?thesis by (intro conjI)
qed

text \<open>
  Claim C8, as amended. The last handler is \<^verbatim>\<open>except Exception\<close>, which does not match
  an exception derived from \<^verbatim>\<open>BaseException\<close> only. When every exception raised inside
  the \<^verbatim>\<open>try\<close> (by fetching, by parsing, or by \<^verbatim>\<open>urljoin\<close> during the traversal; the
  \<^verbatim>\<open>RecursionError\<close> of the traversal is such an exception) is derived from \<^verbatim>\<open>Exception\<close>,
  the function returns a list, and the list is empty when something was raised:
  while fetching, while parsing, by a document nested deeper than the recursion limit,
  or by \<^verbatim>\<open>urljoin\<close> on an attribute candidate.
\<close>

theorem exceptions_derived_from_Exception_are_caught:
  assumes "\<forall>e. fetch xml_source is_url = Inl e \<longrightarrow> is_Exception e"
    and "\<forall>content e. fetch xml_source is_url = Inr content \<and> parse content = Inl e
           \<longrightarrow> is_Exception e"
    and "\<forall>reference e. urljoin xml_source reference = Inl e \<longrightarrow> is_Exception e"
  shows "\<exists>result.
     extract_links_from_xml urljoin fetch parse limit xml_source is_url custom_tags
       custom_attrs = Inr result
     \<and> ((\<exists>e. fetch xml_source is_url = Inl e) \<longrightarrow> result = [])
     \<and> (\<forall>content e. fetch xml_source is_url = Inr content \<and> parse content = Inl e
           \<longrightarrow> result = [])
     \<and> (\<forall>content root.
           fetch xml_source is_url = Inr content \<and> parse content = Inr root
           \<and> limit < nesting root
           \<longrightarrow> result = [])
     \<and> (\<forall>content root d v e.
           fetch xml_source is_url = Inr content \<and> parse content = Inr root \<and> is_url
           \<and> d \<in> set (elements root)
           \<and> v \<in> attribute_candidates (default_attrs @ or_empty custom_attrs) d
           \<and> urljoin xml_source v = Inl e
           \<longrightarrow> result = [])"
proof (cases "fetch xml_source is_url")
  case (Inl e)
  with assms(1) have "is_Exception e" by simp
  with Inl show ?thesis
    by (simp add: extract_fetch_raises handlers_Exception)
next
  case (Inr content)
  note fetched = this
  show ?thesis
  proof (cases "parse content")
    case (Inl e)
    with assms(2) fetched have "is_Exception e" by simp
    with Inl fetched show ?thesis
      by (simp add: extract_parse_raises handlers_Exception)
  next
    case (Inr root)
    note parsed = this
    let ?attrs = "default_attrs @ or_empty custom_attrs"
    show ?thesis
    proof (cases "nesting root \<le> limit \<and> resolution_succeeds urljoin xml_source is_url
        ?attrs root")
      case True
      then have n: "nesting root \<le> limit"
        and r: "resolution_succeeds urljoin xml_source is_url ?attrs root"
        by simp_all
      have none: "urljoin xml_source v \<noteq> Inl e"
        if "is_url" and "d \<in> set (elements root)" and "v \<in> attribute_candidates ?attrs d"
        for d v e
        using r that unfolding resolution_succeeds_def by fastforce
      from extract_ok [where fetch = fetch and parse = parse, OF fetched parsed n r]
      show ?thesis
        using fetched parsed n none by auto
    next
      case False
      have "extract_links_from_xml urljoin fetch parse limit xml_source is_url custom_tags
          custom_attrs = Inr []"
        by (rule extract_traversal_raises [where fetch = fetch and parse = parse,
              OF fetched parsed False]) (use assms(3) in blast)
      then show ?thesis by simp
    qed
  qed
qed

text \<open>The theorem at a file that cannot be read (\<^verbatim>\<open>PermissionError\<close>), and at a document
  for which \<^verbatim>\<open>urljoin\<close> raises \<^verbatim>\<open>ValueError\<close> during the traversal.\<close>

theorem exceptions_derived_from_Exception_are_caught_witness:
  "fetch_raises OtherException ''/root/secret.xml'' False = Inl OtherException
   \<and> is_Exception OtherException
   \<and> extract_links_from_xml urljoin_sample (fetch_raises OtherException)
        (parse_gives sitemap_urlset) 1000 ''/root/secret.xml'' False None None = Inr []
   \<and> urljoin_sample ''https://example.com/index.xml'' ''//['' = Inl ValueError
   \<and> is_Exception ValueError
   \<and> extract_links_from_xml urljoin_sample (fetch_gives ''xml'')
        (parse_gives url_malformed_href_text) 1000 ''https://example.com/index.xml'' True
        None None = Inr []"
proof -
  let ?src = "''https://example.com/index.xml''"
  have u: "\<forall>reference e. urljoin_sample src reference = Inl e \<longrightarrow> is_Exception e" for src
    by (simp add: urljoin_sample_Exception)
  have 1: "\<forall>e. fetch_raises OtherException ''/root/secret.xml'' False = Inl e
      \<longrightarrow> is_Exception e"
    by (simp add: fetch_raises_def)
  have 2: "\<forall>content e. fetch_raises OtherException ''/root/secret.xml'' False = Inr content
          \<and> parse_gives sitemap_urlset content = Inl e \<longrightarrow> is_Exception e"
    by (simp add: fetch_raises_def)
  have 3: "\<exists>e. fetch_raises OtherException ''/root/secret.xml'' False = Inl e"
    by (simp add: fetch_raises_def)
  from exceptions_derived_from_Exception_are_caught [where fetch = "fetch_raises OtherException"
      and parse = "parse_gives sitemap_urlset" and urljoin = urljoin_sample
      and limit = 1000 and custom_tags = None and custom_attrs = None, OF 1 2 u] 3
  have a: "extract_links_from_xml urljoin_sample (fetch_raises OtherException)
        (parse_gives sitemap_urlset) 1000 ''/root/secret.xml'' False None None = Inr []"
    by blast
  have 4: "\<forall>e. fetch_gives ''xml'' ?src True = Inl e \<longrightarrow> is_Exception e"
    by (simp add: fetch_gives_def)
  have 5: "\<forall>content e. fetch_gives ''xml'' ?src True = Inr content
          \<and> parse_gives url_malformed_href_text content = Inl e \<longrightarrow> is_Exception e"
    by (simp add: parse_gives_def)
  have j: "urljoin_sample ?src ''//['' = Inl ValueError"
    by (simp add: urljoin_sample_def)
  have 6: "fetch_gives ''xml'' ?src True = Inr ''xml''
      \<and> parse_gives url_malformed_href_text ''xml'' = Inr url_malformed_href_text \<and> True
      \<and> url_malformed_href_text \<in> set (elements url_malformed_href_text)
      \<and> ''//['' \<in> attribute_candidates (default_attrs @ or_empty None) url_malformed_href_text
      \<and> urljoin_sample ?src ''//['' = Inl ValueError"
    by (simp add: fetch_gives_def parse_gives_def elements_self j attribute_candidates_iff
        url_malformed_href_text_def default_attrs_def)
  from exceptions_derived_from_Exception_are_caught [where fetch = "fetch_gives ''xml''"
      and parse = "parse_gives url_malformed_href_text" and urljoin = urljoin_sample
      and limit = 1000 and custom_tags = None and custom_attrs = None, OF 4 5 u] 6
  have b: "extract_links_from_xml urljoin_sample (fetch_gives ''xml'')
        (parse_gives url_malformed_href_text) 1000 ?src True None None = Inr []"
    by blast
  from a b j show ?thesis by (simp add: fetch_raises_def)
qed

text \<open>
  Claim C8 as stated fails: with a fetch interrupted by \<^verbatim>\<open>KeyboardInterrupt\<close> no handler
  matches and the exception reaches the caller; the same holds for an interrupt that
  arrives during the traversal, inside \<^verbatim>\<open>urljoin\<close>.
\<close>

theorem interrupt_escapes_the_handlers:
  "extract_links_from_xml urljoin_sample (fetch_raises KeyboardInterrupt)
     (parse_gives sitemap_urlset) 1000 ''https://www.zoomit.ir/sitemap/article-1.xml'' True
     None None
   = Inl KeyboardInterrupt
   \<and> extract_links_from_xml (urljoin_raises KeyboardInterrupt) (fetch_gives ''xml'')
     (parse_gives a_href_page) 1000 ''https://example.com/index.xml'' True None None
   = Inl KeyboardInterrupt"
proof -
  have 1: "extract_links_from_xml urljoin_sample (fetch_raises KeyboardInterrupt)
     (parse_gives sitemap_urlset) 1000 ''https://www.zoomit.ir/sitemap/article-1.xml'' True
     None None = Inl KeyboardInterrupt"
    by (simp add: extract_links_from_xml_def try_body_def fetch_raises_def handlers_def)
  have 2: "extract_links_from_xml (urljoin_raises KeyboardInterrupt) (fetch_gives ''xml'')
     (parse_gives a_href_page) 1000 ''https://example.com/index.xml'' True None None
     = Inl KeyboardInterrupt"
    by code_simp
  from 1 2 show ?thesis by (intro conjI)
qed

text \<open>
  Claim C9, as amended. The value of a recognized attribute is taken as it stands: the
  loop over the attributes drops a value only when it is the empty string, and hands
  every other value, a single space included, to \<^verbatim>\<open>urljoin\<close> when the source is a URL
  or puts it into the set as it is otherwise. The value (resolved when the source is a
  URL) is in the result when the traversal of the document raises nothing: the nesting
  is within the recursion limit and \<^verbatim>\<open>urljoin\<close> raises for no attribute candidate of
  the document.
\<close>

theorem attribute_values_are_not_trimmed:
  assumes "fetch xml_source is_url = Inr content" and "parse content = Inr root"
    and "d \<in> set (elements root)"
    and "a \<in> set (default_attrs @ or_empty custom_attrs)"
    and "attrib d a = Some v"
    and "nesting root \<le> limit"
    and "is_url \<longrightarrow>
           (\<forall>d' \<in> set (elements root).
              \<forall>w \<in> attribute_candidates (default_attrs @ or_empty custom_attrs) d'.
                \<exists>joined. urljoin xml_source w = Inr joined)"
  shows "(v \<noteq> [] \<longrightarrow>
       (\<exists>result.
          extract_links_from_xml urljoin fetch parse limit xml_source is_url custom_tags
            custom_attrs = Inr result
          \<and> (if is_url then projr (urljoin xml_source v) else v) \<in> set result))
     \<and> check_attributes urljoin xml_source is_url d [a] links
       = (if v = [] then Inr links
          else if is_url
            then (case urljoin xml_source v of
                    Inl e \<Rightarrow> Inl e
                  | Inr joined \<Rightarrow> Inr (insert joined links))
            else Inr (insert v links))"
proof -
  let ?attrs = "default_attrs @ or_empty custom_attrs"
  let ?tags = "default_tags @ or_empty custom_tags"
  have step: "check_attributes urljoin xml_source is_url d [a] links
       = (if v = [] then Inr links
          else if is_url
            then (case urljoin xml_source v of
                    Inl e \<Rightarrow> Inl e
                  | Inr joined \<Rightarrow> Inr (insert joined links))
            else Inr (insert v links))"
    using assms(5) by (simp split: sum.split)
  have r: "resolution_succeeds urljoin xml_source is_url ?attrs root"
    using assms(7) by (simp add: resolution_succeeds_def)
  have "\<exists>result.
          extract_links_from_xml urljoin fetch parse limit xml_source is_url custom_tags
            custom_attrs = Inr result
          \<and> (if is_url then projr (urljoin xml_source v) else v) \<in> set result"
    if "v \<noteq> []"
  proof -
    have c: "v \<in> attribute_candidates ?attrs d"
      using that assms(4,5) unfolding attribute_candidates_iff by blast
    have "(if is_url then projr (urljoin xml_source v) else v)
        \<in> resolved urljoin xml_source is_url v"
      using c assms(3,7) by (fastforce simp: resolved_def)
    with c have "(if is_url then projr (urljoin xml_source v) else v)
        \<in> document_links urljoin xml_source is_url ?attrs ?tags root"
      using assms(3) unfolding document_links_member by blast
    with extract_ok_set [where fetch = fetch and parse = parse and ct = custom_tags,
        OF assms(1) assms(2) assms(6) r]
    show ?thesis by auto
  qed
  with step show ?thesis by blast
qed

text \<open>The theorem at \<^verbatim>\<open><a href=" ">\<close>: read from a file the space itself is the
  result; fetched from a URL the result is what \<^verbatim>\<open>urljoin\<close> gives for the space, the
  base URL.\<close>

theorem attribute_values_are_not_trimmed_witness:
  "fetch_gives ''xml'' ''index.xml'' False = Inr ''xml''
   \<and> parse_gives a_href_space ''xml'' = Inr a_href_space
   \<and> a_href_space \<in> set (elements a_href_space)
   \<and> ''href'' \<in> set (default_attrs @ or_empty None)
   \<and> attrib a_href_space ''href'' = Some '' ''
   \<and> nesting a_href_space \<le> 1000
   \<and> (\<exists>result.
        extract_links_from_xml urljoin_sample (fetch_gives ''xml'') (parse_gives a_href_space)
          1000 ''index.xml'' False None None = Inr result
        \<and> '' '' \<in> set result)
   \<and> extract_links_from_xml urljoin_sample (fetch_gives ''xml'') (parse_gives a_href_space)
        1000 ''index.xml'' False None None = Inr ['' '']
   \<and> urljoin_sample ''https://example.com/index.xml'' '' ''
       = Inr ''https://example.com/index.xml''
   \<and> (\<exists>result.
        extract_links_from_xml urljoin_sample (fetch_gives ''xml'') (parse_gives a_href_space)
          1000 ''https://example.com/index.xml'' True None None = Inr result
        \<and> ''https://example.com/index.xml'' \<in> set result)
   \<and> extract_links_from_xml urljoin_sample (fetch_gives ''xml'') (parse_gives a_href_space)
        1000 ''https://example.com/index.xml'' True None None
       = Inr [''https://example.com/index.xml'']"
proof -
  let ?src = "''https://example.com/index.xml''"
  have f: "fetch_gives ''xml'' src u = Inr ''xml''" for src u
    by (simp add: fetch_gives_def)
  have p: "parse_gives a_href_space ''xml'' = Inr a_href_space"
    by (simp add: parse_gives_def)
  have d: "a_href_space \<in> set (elements a_href_space)"
    by (rule elements_self)
  have a: "''href'' \<in> set (default_attrs @ or_empty None)"
    by (simp add: default_attrs_def)
  have v: "attrib a_href_space ''href'' = Some '' ''"
    by (simp add: a_href_space_def)
  have n: "nesting a_href_space \<le> 1000"
    by (simp add: a_href_space_def)
  have s: "'' '' \<noteq> ([] :: string)" by simp
  have j: "urljoin_sample ?src '' '' = Inr ?src"
    by (simp add: urljoin_sample_def)
  have r0: "False \<longrightarrow>
           (\<forall>d' \<in> set (elements a_href_space).
              \<forall>w \<in> attribute_candidates (default_attrs @ or_empty None) d'.
                \<exists>joined. urljoin_sample ''index.xml'' w = Inr joined)"
    by simp
  have r1: "True \<longrightarrow>
           (\<forall>d' \<in> set (elements a_href_space).
              \<forall>w \<in> attribute_candidates (default_attrs @ or_empty None) d'.
                \<exists>joined. urljoin_sample ?src w = Inr joined)"
    by (simp add: a_href_space_def attribute_candidates_def default_attrs_def or_empty_def j)
  have x0: "extract_links_from_xml urljoin_sample (fetch_gives ''xml'')
        (parse_gives a_href_space) 1000 ''index.xml'' False None None = Inr ['' '']"
    by code_simp
  have x1: "extract_links_from_xml urljoin_sample (fetch_gives ''xml'')
        (parse_gives a_href_space) 1000 ?src True None None = Inr [?src]"
    by code_simp
  from attribute_values_are_not_trimmed [where fetch = "fetch_gives ''xml''"
      and parse = "parse_gives a_href_space" and urljoin = urljoin_sample
      and custom_tags = None and links = "{}", OF f p d a v n r0,
      THEN conjunct1, rule_format, OF s]
  have e0: "\<exists>result.
        extract_links_from_xml urljoin_sample (fetch_gives ''xml'') (parse_gives a_href_space)
          1000 ''index.xml'' False None None = Inr result
        \<and> '' '' \<in> set result"
    by simp
  from attribute_values_are_not_trimmed [where fetch = "fetch_gives ''xml''"
      and parse = "parse_gives a_href_space" and urljoin = urljoin_sample
      and custom_tags = None and links = "{}", OF f p d a v n r1,
      THEN conjunct1, rule_format, OF s]
  have e1: "\<exists>result.
        extract_links_from_xml urljoin_sample (fetch_gives ''xml'') (parse_gives a_href_space)
          1000 ?src True None None = Inr result
        \<and> ?src \<in> set result"
    by (simp add: j)
  from f [of "''index.xml''" False] p d a v n e0 x0 j e1 x1 show ?thesis
    by (intro conjI)
qed

text \<open>
  Claim C9 as stated fails. In \<^verbatim>\<open><root><a href=" "/><img src="//["/></root>\<close> fetched
  from a URL the attribute \<^verbatim>\<open>href\<close> has a whitespace value, but \<^verbatim>\<open>urljoin\<close> raises
  \<^verbatim>\<open>ValueError\<close> for the \<^verbatim>\<open>src\<close> of the next element and the result is empty; and
  \<^verbatim>\<open><a href=" ">\<close> under a thousand levels of elements, read from a file with a
  recursion limit of a thousand, gives the empty list as well.
\<close>

theorem whitespace_value_lost_when_traversal_raises:
  "Element ''a'' [''href'' \<mapsto> '' ''] None [] \<in> set (elements space_beside_malformed)
   \<and> urljoin_sample ''https://example.com/index.xml'' '' ''
       = Inr ''https://example.com/index.xml''
   \<and> urljoin_sample ''https://example.com/index.xml'' ''//['' = Inl ValueError
   \<and> extract_links_from_xml urljoin_sample (fetch_gives ''xml'')
        (parse_gives space_beside_malformed) 1000 ''https://example.com/index.xml'' True
        None None = Inr []
   \<and> extract_links_from_xml urljoin_sample (fetch_gives ''xml'')
        (parse_gives (deep 1000 a_href_space)) 1000 ''index.xml'' False None None = Inr []"
proof -
  have 1: "Element ''a'' [''href'' \<mapsto> '' ''] None [] \<in> set (elements space_beside_malformed)"
    by (simp add: space_beside_malformed_def)
  have 2: "urljoin_sample ''https://example.com/index.xml'' '' ''
       = Inr ''https://example.com/index.xml''"
    and 3: "urljoin_sample ''https://example.com/index.xml'' ''//['' = Inl ValueError"
    by (simp_all add: urljoin_sample_def)
  have 4: "extract_links_from_xml urljoin_sample (fetch_gives ''xml'')
        (parse_gives space_beside_malformed) 1000 ''https://example.com/index.xml'' True
        None None = Inr []"
    by code_simp
  have 5: "extract_links_from_xml urljoin_sample (fetch_gives ''xml'')
        (parse_gives (deep 1000 a_href_space)) 1000 ''index.xml'' False None None = Inr []"
    by (rule extract_traversal_raises [where content = "''xml''"
          and root = "deep 1000 a_href_space"])
      (simp_all add: fetch_gives_def parse_gives_def nesting_deep a_href_space_def
        urljoin_sample_Exception)
  from 1 2 3 4 5 show ?thesis by (intro conjI)
qed

text \<open>
  Claim C10, as amended. An element with a recognized attribute of non-empty value and
  a matching tag with non-empty trimmed text gives both links, the attribute value
  (resolved when the source is a URL) and the trimmed text as it is, when the traversal
  of the document raises nothing: the nesting is within the recursion limit and
  \<^verbatim>\<open>urljoin\<close> raises for no attribute candidate of the document.
\<close>

theorem attribute_and_text_both_contribute:
  assumes "fetch xml_source is_url = Inr content" and "parse content = Inr root"
    and "d \<in> set (elements root)"
    and "a \<in> set (default_attrs @ or_empty custom_attrs)"
    and "attrib d a = Some v" and "v \<noteq> []"
    and "tag_matches (default_tags @ or_empty custom_tags) d"
    and "text_of d = Some txt" and "strip txt \<noteq> []"
    and "nesting root \<le> limit"
    and "is_url \<longrightarrow>
           (\<forall>d' \<in> set (elements root).
              \<forall>w \<in> attribute_candidates (default_attrs @ or_empty custom_attrs) d'.
                \<exists>joined. urljoin xml_source w = Inr joined)"
  shows "\<exists>result.
     extract_links_from_xml urljoin fetch parse limit xml_source is_url custom_tags
       custom_attrs = Inr result
     \<and> (if is_url then projr (urljoin xml_source v) else v) \<in> set result
     \<and> strip txt \<in> set result"
proof -
  let ?attrs = "default_attrs @ or_empty custom_attrs"
  let ?tags = "default_tags @ or_empty custom_tags"
  let ?links = "document_links urljoin xml_source is_url ?attrs ?tags root"
  have r: "resolution_succeeds urljoin xml_source is_url ?attrs root"
    using assms(11) by (simp add: resolution_succeeds_def)
  have c: "v \<in> attribute_candidates ?attrs d"
    using assms(4,5,6) unfolding attribute_candidates_iff by blast
  have "(if is_url then projr (urljoin xml_source v) else v)
      \<in> resolved urljoin xml_source is_url v"
    using c assms(3,11) by (fastforce simp: resolved_def)
  with c have 1: "(if is_url then projr (urljoin xml_source v) else v) \<in> ?links"
    using assms(3) unfolding document_links_member by blast
  have "strip txt \<in> text_candidates ?tags d"
    using assms(7,8,9) by (simp add: text_candidates_def)
  then have 2: "strip txt \<in> ?links"
    using assms(3) unfolding document_links_member by blast
  from extract_ok_set [where fetch = fetch and parse = parse and ct = custom_tags,
      OF assms(1) assms(2) assms(10) r] 1 2
  show ?thesis by auto
qed

text \<open>The theorem at \<^verbatim>\<open><url href="/x">https://y</url>\<close> fetched from
  \<^verbatim>\<open>https://example.com/index.xml\<close>.\<close>

theorem attribute_and_text_both_contribute_witness:
  "fetch_gives ''xml'' ''https://example.com/index.xml'' True = Inr ''xml''
   \<and> parse_gives url_href_text ''xml'' = Inr url_href_text
   \<and> attrib url_href_text ''href'' = Some ''/x''
   \<and> tag_matches (default_tags @ or_empty None) url_href_text
   \<and> text_of url_href_text = Some ''https://y''
   \<and> nesting url_href_text \<le> 1000
   \<and> urljoin_sample ''https://example.com/index.xml'' ''/x'' = Inr ''https://example.com/x''
   \<and> strip ''https://y'' = ''https://y''
   \<and> (\<exists>result.
        extract_links_from_xml urljoin_sample (fetch_gives ''xml'') (parse_gives url_href_text)
          1000 ''https://example.com/index.xml'' True None None = Inr result
        \<and> ''https://example.com/x'' \<in> set result
        \<and> ''https://y'' \<in> set result)
   \<and> extract_links_from_xml urljoin_sample (fetch_gives ''xml'') (parse_gives url_href_text)
        1000 ''https://example.com/index.xml'' True None None
       = Inr [''https://example.com/x'', ''https://y'']"
proof -
  let ?src = "''https://example.com/index.xml''"
  have f: "fetch_gives ''xml'' ?src True = Inr ''xml''"
    by (simp add: fetch_gives_def)
  have p: "parse_gives url_href_text ''xml'' = Inr url_href_text"
    by (simp add: parse_gives_def)
  have d: "url_href_text \<in> set (elements url_href_text)"
    by (rule elements_self)
  have a: "''href'' \<in> set (default_attrs @ or_empty None)"
    by (simp add: default_attrs_def)
  have v: "attrib url_href_text ''href'' = Some ''/x''"
    by (simp add: url_href_text_def)
  have n: "''/x'' \<noteq> ([] :: string)" by simp
  have m: "tag_matches (default_tags @ or_empty None) url_href_text"
    by (simp add: tag_matches_def url_href_text_def default_tags_def tag_name_def)
  have t: "text_of url_href_text = Some ''https://y''"
    by (simp add: url_href_text_def)
  have s: "strip ''https://y'' = ''https://y''"
    by code_simp
  have s': "strip ''https://y'' \<noteq> []"
    by (simp add: s)
  have k: "nesting url_href_text \<le> 1000"
    by (simp add: url_href_text_def)
  have j: "urljoin_sample ?src ''/x'' = Inr ''https://example.com/x''"
    by (simp add: urljoin_sample_def)
  have r: "True \<longrightarrow>
           (\<forall>d' \<in> set (elements url_href_text).
              \<forall>w \<in> attribute_candidates (default_attrs @ or_empty None) d'.
                \<exists>joined. urljoin_sample ?src w = Inr joined)"
    by (simp add: url_href_text_def attribute_candidates_def default_attrs_def or_empty_def j)
  have x: "extract_links_from_xml urljoin_sample (fetch_gives ''xml'')
        (parse_gives url_href_text) 1000 ?src True None None
       = Inr [''https://example.com/x'', ''https://y'']"
    by code_simp
  from attribute_and_text_both_contribute [where fetch = "fetch_gives ''xml''"
      and parse = "parse_gives url_href_text" and urljoin = urljoin_sample
      and custom_tags = None, OF f p d a v n m t s' k r]
  have e: "\<exists>result.
        extract_links_from_xml urljoin_sample (fetch_gives ''xml'') (parse_gives url_href_text)
          1000 ?src True None None = Inr result
        \<and> ''https://example.com/x'' \<in> set result
        \<and> ''https://y'' \<in> set result"
    by (simp add: j s)
  from f p v m t k j s e x show ?thesis by (intro conjI)
qed

text \<open>
  Claim C10 as stated fails. For \<^verbatim>\<open><url href="//[">https://y</url>\<close> fetched from a URL
  the attribute value is not empty and the tag matches with the text \<^verbatim>\<open>https://y\<close>, but
  \<^verbatim>\<open>urljoin\<close> raises \<^verbatim>\<open>ValueError\<close> and the result is empty: neither link appears. The
  same element under a thousand levels of elements, with \<^verbatim>\<open>href="/x"\<close> and a recursion
  limit of a thousand, gives the empty list as well.
\<close>

theorem both_links_lost_when_traversal_raises:
  "attrib url_malformed_href_text ''href'' = Some ''//[''
   \<and> tag_matches (default_tags @ or_empty None) url_malformed_href_text
   \<and> text_of url_malformed_href_text = Some ''https://y''
   \<and> strip ''https://y'' = ''https://y''
   \<and> urljoin_sample ''https://example.com/index.xml'' ''//['' = Inl ValueError
   \<and> extract_links_from_xml urljoin_sample (fetch_gives ''xml'')
        (parse_gives url_malformed_href_text) 1000 ''https://example.com/index.xml'' True
        None None = Inr []
   \<and> extract_links_from_xml urljoin_sample (fetch_gives ''xml'')
        (parse_gives (deep 1000 url_href_text)) 1000 ''https://example.com/index.xml'' True
        None None = Inr []"
proof -
  have 1: "attrib url_malformed_href_text ''href'' = Some ''//[''"
    and 3: "text_of url_malformed_href_text = Some ''https://y''"
    by (simp_all add: url_malformed_href_text_def)
  have 2: "tag_matches (default_tags @ or_empty None) url_malformed_href_text"
    by (simp add: tag_matches_def url_malformed_href_text_def default_tags_def tag_name_def)
  have 4: "strip ''https://y'' = ''https://y''"
    by code_simp
  have 5: "urljoin_sample ''https://example.com/index.xml'' ''//['' = Inl ValueError"
    by (simp add: urljoin_sample_def)
  have 6: "extract_links_from_xml urljoin_sample (fetch_gives ''xml'')
        (parse_gives url_malformed_href_text) 1000 ''https://example.com/index.xml'' True
        None None = Inr []"
    by code_simp
  have 7: "extract_links_from_xml urljoin_sample (fetch_gives ''xml'')
        (parse_gives (deep 1000 url_href_text)) 1000 ''https://example.com/index.xml'' True
        None None = Inr []"
    by (rule extract_traversal_raises [where content = "''xml''"
          and root = "deep 1000 url_href_text"])
      (simp_all add: fetch_gives_def parse_gives_def nesting_deep url_href_text_def
        urljoin_sample_Exception)
  from 1 2 3 4 5 6 7 show ?thesis by (intro conjI)
qed

end
